theory Spec2Isabelle
  imports Complex_Main "HOL-Library.Sublist" "HOL-Library.Multiset" "HOL-Library.Log_Nat"
begin

section \<open>JavaScript values used by the task code\<close>

text \<open>
  A \<open>Date\<close> is modelled by its time value (milliseconds since the epoch), so that
  \<open>new Date()\<close> is the current time \<open>now\<close>, passed to every operation that reads the
  clock.  A field that may be absent from a JavaScript object is an \<open>option\<close>.
\<close>

type_synonym date = int

text \<open>
  A thrown error.  The handlers tell the errors apart by their \<open>name\<close> and \<open>code\<close>:
  \<^item> \<open>Error m\<close> is \<open>new Error(m)\<close>, with the message \<open>m\<close>;
  \<^item> \<open>ValidationError errs\<close> is the validation error of Mongoose (its \<open>name\<close> is
    \<open>'ValidationError'\<close>); \<open>errs\<close> is its object \<open>errors\<close>, which has one entry for each
    failing path: the path with the message of its failing validator;
  \<^item> \<open>CastError m\<close> is the cast error of Mongoose (\<open>name\<close> \<open>'CastError'\<close>);
  \<^item> \<open>MongoServerError c m\<close> is an error of the database driver with its numeric \<open>code\<close>.

  The entries of \<open>errors\<close> are a multiset: Mongoose visits the paths of a document in an
  order that depends on the order of the keys of the payload, which is not represented, and
  \<open>Object.values(error.errors)\<close> follows that order.  For the same reason the \<open>message\<close> of
  a validation error, which lists the failing paths and their messages in that order, is not
  represented: \<open>e_message\<close> has no equation for it.
\<close>

datatype js_error =
    Error string
  | ValidationError "(string \<times> string) multiset"
  | CastError string
  | MongoServerError int string

fun e_message :: "js_error \<Rightarrow> string" where
  "e_message (Error m) = m"
| "e_message (CastError m) = m"
| "e_message (MongoServerError c m) = m"

text \<open>\<open>String(n)\<close> for a non-negative integer: its decimal digits.\<close>

definition digit_char :: "nat \<Rightarrow> char" where
  "digit_char d = ''0123456789'' ! d"

fun String_js :: "nat \<Rightarrow> string" where
  "String_js n =
     (if n < 10 then [digit_char n] else String_js (n div 10) @ [digit_char (n mod 10)])"

declare String_js.simps [simp del]

text \<open>\<open>v || d\<close> for an optional string (the empty string is falsy) and for any other
  optional value whose present values are truthy.\<close>

definition or_str :: "string option \<Rightarrow> string \<Rightarrow> string" where
  "or_str v d = (case v of None \<Rightarrow> d | Some s \<Rightarrow> if s = [] then d else s)"

definition or_else :: "'a option \<Rightarrow> 'a \<Rightarrow> 'a" where
  "or_else v d = (case v of None \<Rightarrow> d | Some x \<Rightarrow> x)"

text \<open>
  Strings.  A string is a list of characters, and a character is a UTF-16 code unit below
  256 (the Latin-1 range, \<open>CHR 0x00\<close> to \<open>CHR 0xFF\<close>); the length of the list is the
  \<open>length\<close> of the JavaScript string.  In this range the white space of
  \<open>String.prototype.trim\<close> and of the regular expression class \<open>\s\<close> is tab, line feed,
  vertical tab, form feed, carriage return, space and the no-break space U+00A0, and
  \<open>toLowerCase\<close> maps the letters A to Z and the capital letters U+00C0 to U+00DE (all but
  the multiplication sign U+00D7) to the code unit 32 higher.
\<close>

definition is_space :: "char \<Rightarrow> bool" where
  "is_space c =
     (c \<in> set [CHR 0x20, CHR 0x09, CHR 0x0A, CHR 0x0B, CHR 0x0C, CHR 0x0D, CHR 0xA0])"

definition trim :: "string \<Rightarrow> string" where
  "trim s = rev (dropWhile is_space (rev (dropWhile is_space s)))"

definition upper_letters :: string where
  "upper_letters = ''ABCDEFGHIJKLMNOPQRSTUVWXYZ'' @
     [CHR 0xC0, CHR 0xC1, CHR 0xC2, CHR 0xC3, CHR 0xC4, CHR 0xC5, CHR 0xC6, CHR 0xC7,
      CHR 0xC8, CHR 0xC9, CHR 0xCA, CHR 0xCB, CHR 0xCC, CHR 0xCD, CHR 0xCE, CHR 0xCF,
      CHR 0xD0, CHR 0xD1, CHR 0xD2, CHR 0xD3, CHR 0xD4, CHR 0xD5, CHR 0xD6, CHR 0xD8,
      CHR 0xD9, CHR 0xDA, CHR 0xDB, CHR 0xDC, CHR 0xDD, CHR 0xDE]"

definition lower_letters :: string where
  "lower_letters = ''abcdefghijklmnopqrstuvwxyz'' @
     [CHR 0xE0, CHR 0xE1, CHR 0xE2, CHR 0xE3, CHR 0xE4, CHR 0xE5, CHR 0xE6, CHR 0xE7,
      CHR 0xE8, CHR 0xE9, CHR 0xEA, CHR 0xEB, CHR 0xEC, CHR 0xED, CHR 0xEE, CHR 0xEF,
      CHR 0xF0, CHR 0xF1, CHR 0xF2, CHR 0xF3, CHR 0xF4, CHR 0xF5, CHR 0xF6, CHR 0xF8,
      CHR 0xF9, CHR 0xFA, CHR 0xFB, CHR 0xFC, CHR 0xFD, CHR 0xFE]"

definition lower_char :: "char \<Rightarrow> char" where
  "lower_char c =
     (case map_of (zip upper_letters lower_letters) c of None \<Rightarrow> c | Some l \<Rightarrow> l)"

definition toLowerCase :: "string \<Rightarrow> string" where
  "toLowerCase s = map lower_char s"

text \<open>\<open>s.includes(t)\<close>: \<open>t\<close> occurs in \<open>s\<close> as a contiguous substring.\<close>

fun includes_js :: "string \<Rightarrow> string \<Rightarrow> bool" where
  "includes_js [] t = (t = [])"
| "includes_js (c # cs) t = (prefix t (c # cs) \<or> includes_js cs t)"

text \<open>\<open>xs.slice(start, end)\<close> with integer arguments: a negative index counts from the
  end, and both are clamped to the array.\<close>

definition slice_index :: "int \<Rightarrow> nat \<Rightarrow> nat" where
  "slice_index k len = (if k < 0 then nat (max (int len + k) 0) else min (nat k) len)"

definition slice :: "int \<Rightarrow> int \<Rightarrow> 'a list \<Rightarrow> 'a list" where
  "slice start fin xs =
     (let k = slice_index start (length xs); e = slice_index fin (length xs)
      in take (e - k) (drop k xs))"

text \<open>\<open>Array.prototype.findIndex\<close>; \<open>None\<close> stands for the result \<open>-1\<close>.\<close>

fun findIndex :: "('a \<Rightarrow> bool) \<Rightarrow> 'a list \<Rightarrow> nat option" where
  "findIndex P [] = None"
| "findIndex P (x # xs) = (if P x then Some 0 else map_option Suc (findIndex P xs))"

text \<open>\<open>xs.splice(i, 1)\<close>: the array without its element at index \<open>i\<close>.\<close>

definition splice1 :: "nat \<Rightarrow> 'a list \<Rightarrow> 'a list" where
  "splice1 i xs = take i xs @ drop (Suc i) xs"


section \<open>The in-memory store (memoryStore.js)\<close>

record metadata =
  estimatedTime :: "int option"
  actualTime :: "int option"
  difficulty :: "string option"

definition empty_metadata :: metadata where
  "empty_metadata = \<lparr> estimatedTime = None, actualTime = None, difficulty = None \<rparr>"

text \<open>The argument of \<open>InMemoryTask.create\<close> (\<open>taskData\<close>).  Every caller in the
  repository passes a string as \<open>text\<close> (the controller checks it, the sample data has
  it); the other keys may be absent.\<close>

record taskData =
  d_text :: string
  d_completed :: "bool option"
  d_priority :: "string option"
  d_category :: "string option"
  d_dueDate :: "date option"
  d_tags :: "string list option"
  d_metadata :: "metadata option"

text \<open>The body of a creation request: any of the task's keys may be absent.\<close>

record body =
  b_text :: "string option"
  b_completed :: "bool option"
  b_priority :: "string option"
  b_category :: "string option"
  b_dueDate :: "date option"
  b_tags :: "string list option"
  b_metadata :: "metadata option"
  b_createdAt :: "date option"

definition text_only :: "string \<Rightarrow> body" where
  "text_only txt =
     \<lparr> b_text = Some txt, b_completed = None, b_priority = None, b_category = None,
       b_dueDate = None, b_tags = None, b_metadata = None, b_createdAt = None \<rparr>"

text \<open>A stored task, with the fields of the object literal in \<open>InMemoryTask.create\<close>;
  \<open>t_uid\<close> is the field \<open>_id\<close>.\<close>

record mtask =
  t_uid :: string
  t_id :: string
  t_text :: string
  t_completed :: bool
  t_priority :: string
  t_category :: string
  t_dueDate :: "date option"
  t_tags :: "string list"
  t_metadata :: metadata
  t_createdAt :: date
  t_updatedAt :: date
  t_lastModified :: date

text \<open>The module state: \<open>let tasks = []; let nextId = 1;\<close>\<close>

record store =
  tasks :: "mtask list"
  nextId :: nat

definition initial_store :: store where
  "initial_store = \<lparr> tasks = [], nextId = 1 \<rparr>"

text \<open>The update payload (\<open>updateData\<close>): every key it may carry for a field of a
  stored task.  \<open>p_dueDate = Some None\<close> is the key \<open>dueDate\<close> with the value \<open>null\<close>.\<close>

record patch =
  p_uid :: "string option"
  p_id :: "string option"
  p_text :: "string option"
  p_completed :: "bool option"
  p_priority :: "string option"
  p_category :: "string option"
  p_dueDate :: "date option option"
  p_tags :: "string list option"
  p_metadata :: "metadata option"
  p_createdAt :: "date option"
  p_updatedAt :: "date option"
  p_lastModified :: "date option"

definition empty_patch :: patch where
  "empty_patch = \<lparr> p_uid = None, p_id = None, p_text = None, p_completed = None,
     p_priority = None, p_category = None, p_dueDate = None, p_tags = None,
     p_metadata = None, p_createdAt = None, p_updatedAt = None, p_lastModified = None \<rparr>"

text \<open>The third argument of \<open>findByIdAndUpdate\<close>: \<open>None\<close> when the caller passes no
  options (the default \<open>{}\<close>), and \<open>o_new = None\<close> when the object has no key \<open>new\<close>.\<close>

record options =
  o_new :: "bool option"

definition options_new :: "options option \<Rightarrow> bool" where
  "options_new opts = (case opts of None \<Rightarrow> False | Some ob \<Rightarrow> o_new ob = Some True)"

text \<open>\<open>task => task._id === id || task.id === id\<close>\<close>

definition has_id :: "string \<Rightarrow> mtask \<Rightarrow> bool" where
  "has_id i t = (t_uid t = i \<or> t_id t = i)"

definition InMemoryTask_findById :: "string \<Rightarrow> store \<Rightarrow> mtask option" where
  "InMemoryTask_findById i s = List.find (has_id i) (tasks s)"

definition InMemoryTask_create :: "date \<Rightarrow> taskData \<Rightarrow> store \<Rightarrow> mtask \<times> store" where
  "InMemoryTask_create now d s =
     (let newTask = \<lparr> t_uid = String_js (nextId s),
                       t_id = String_js (nextId s),
                       t_text = d_text d,
                       t_completed = or_else (d_completed d) False,
                       t_priority = or_str (d_priority d) ''medium'',
                       t_category = or_str (d_category d) ''general'',
                       t_dueDate = d_dueDate d,
                       t_tags = or_else (d_tags d) [],
                       t_metadata = or_else (d_metadata d) empty_metadata,
                       t_createdAt = now,
                       t_updatedAt = now,
                       t_lastModified = now \<rparr>
      in (newTask, s\<lparr> tasks := newTask # tasks s, nextId := nextId s + 1 \<rparr>))"

text \<open>\<open>{ ...tasks[taskIndex], ...updateData, updatedAt: new Date(), lastModified: new Date() }\<close>:
  every key of the payload replaces the stored field, then the two timestamps are set.\<close>

definition spread :: "date \<Rightarrow> mtask \<Rightarrow> patch \<Rightarrow> mtask" where
  "spread now t p =
     \<lparr> t_uid = or_else (p_uid p) (t_uid t),
       t_id = or_else (p_id p) (t_id t),
       t_text = or_else (p_text p) (t_text t),
       t_completed = or_else (p_completed p) (t_completed t),
       t_priority = or_else (p_priority p) (t_priority t),
       t_category = or_else (p_category p) (t_category t),
       t_dueDate = or_else (p_dueDate p) (t_dueDate t),
       t_tags = or_else (p_tags p) (t_tags t),
       t_metadata = or_else (p_metadata p) (t_metadata t),
       t_createdAt = or_else (p_createdAt p) (t_createdAt t),
       t_updatedAt = now,
       t_lastModified = now \<rparr>"

definition InMemoryTask_findByIdAndUpdate ::
  "date \<Rightarrow> string \<Rightarrow> patch \<Rightarrow> options option \<Rightarrow> store \<Rightarrow> (js_error + mtask option) \<times> store" where
  "InMemoryTask_findByIdAndUpdate now i updateData opts s =
     (case findIndex (has_id i) (tasks s) of
        None \<Rightarrow> (if options_new opts then (Inr None, s)
                 else (Inl (Error ''Task not found''), s))
      | Some taskIndex \<Rightarrow>
          (let updatedTask = spread now (tasks s ! taskIndex) updateData
           in (Inr (Some updatedTask), s\<lparr> tasks := (tasks s)[taskIndex := updatedTask] \<rparr>)))"

definition InMemoryTask_findByIdAndDelete :: "string \<Rightarrow> store \<Rightarrow> mtask option \<times> store" where
  "InMemoryTask_findByIdAndDelete i s =
     (case findIndex (has_id i) (tasks s) of
        None \<Rightarrow> (None, s)
      | Some taskIndex \<Rightarrow>
          (Some (tasks s ! taskIndex), s\<lparr> tasks := splice1 taskIndex (tasks s) \<rparr>))"

text \<open>The filter object \<open>InMemoryTask.find\<close> reads: the keys \<open>completed\<close>, \<open>priority\<close>,
  \<open>category\<close> and \<open>$text.$search\<close>, each possibly absent.\<close>

record query =
  q_completed :: "bool option"
  q_priority :: "string option"
  q_category :: "string option"
  q_search :: "string option"

definition empty_query :: query where
  "empty_query = \<lparr> q_completed = None, q_priority = None, q_category = None, q_search = None \<rparr>"

text \<open>A key that is tested for truthiness (\<open>if (filter.priority)\<close>) filters only when it
  is present and not the empty string.\<close>

definition filter_if :: "string option \<Rightarrow> (string \<Rightarrow> mtask \<Rightarrow> bool) \<Rightarrow> mtask list \<Rightarrow> mtask list" where
  "filter_if key test results =
     (case key of None \<Rightarrow> results
      | Some v \<Rightarrow> if v = [] then results else filter (test v) results)"

text \<open>\<open>task.text.toLowerCase().includes(searchTerm) ||
  (task.category && task.category.toLowerCase().includes(searchTerm))\<close>\<close>

definition search_match :: "string \<Rightarrow> mtask \<Rightarrow> bool" where
  "search_match searchTerm t =
     (includes_js (toLowerCase (t_text t)) searchTerm
      \<or> (t_category t \<noteq> [] \<and> includes_js (toLowerCase (t_category t)) searchTerm))"

definition InMemoryTask_find :: "query \<Rightarrow> store \<Rightarrow> mtask list" where
  "InMemoryTask_find f s =
     (let r0 = tasks s;
          r1 = (case q_completed f of None \<Rightarrow> r0
                | Some c \<Rightarrow> filter (\<lambda>t. t_completed t = c) r0);
          r2 = filter_if (q_priority f) (\<lambda>v t. t_priority t = v) r1;
          r3 = filter_if (q_category f) (\<lambda>v t. t_category t = v) r2;
          r4 = filter_if (q_search f) (\<lambda>v. search_match (toLowerCase v)) r3
      in sort_key (\<lambda>t. - t_createdAt t) r4)"

definition InMemoryTask_countDocuments :: "query \<Rightarrow> store \<Rightarrow> nat" where
  "InMemoryTask_countDocuments f s = length (InMemoryTask_find f s)"

text \<open>\<open>InMemoryTask.aggregate\<close>.  The statistics object is a record whose optional
  fields say which keys the object has: the in-memory object has \<open>byPriority\<close> and
  \<open>byCategory\<close> and neither \<open>overdue\<close> nor \<open>completionRate\<close>.  \<open>byCategory\<close> is
  the list of its keys with their counts, each key at the place where it was first added.\<close>

record stats =
  st_total :: nat
  st_completed :: nat
  st_active :: nat
  st_overdue :: "nat option"
  st_completionRate :: "rat option"
  st_byPriority :: "(string \<times> nat) list option"
  st_byCategory :: "(string \<times> nat) list option"

fun bump :: "string \<Rightarrow> (string \<times> nat) list \<Rightarrow> (string \<times> nat) list" where
  "bump k [] = [(k, 1)]"
| "bump k ((k', n) # kvs) = (if k = k' then (k', n + 1) # kvs else (k', n) # bump k kvs)"

definition InMemoryTask_aggregate :: "store \<Rightarrow> stats" where
  "InMemoryTask_aggregate s =
     \<lparr> st_total = length (tasks s),
       st_completed = length (filter t_completed (tasks s)),
       st_active = length (filter (\<lambda>t. \<not> t_completed t) (tasks s)),
       st_overdue = None,
       st_completionRate = None,
       st_byPriority = Some
         [ (''low'', length (filter (\<lambda>t. t_priority t = ''low'') (tasks s))),
           (''medium'', length (filter (\<lambda>t. t_priority t = ''medium'') (tasks s))),
           (''high'', length (filter (\<lambda>t. t_priority t = ''high'') (tasks s))),
           (''urgent'', length (filter (\<lambda>t. t_priority t = ''urgent'') (tasks s))) ],
       st_byCategory = Some
         (foldl (\<lambda>acc t. bump (if t_category t = [] then ''uncategorized'' else t_category t) acc)
            [] (tasks s)) \<rparr>"

text \<open>\<open>initializeSampleData\<close>: when the store is empty, the five sample tasks are
  created in order (each \<open>create\<close> puts its task at the front).\<close>

definition sample :: "string \<Rightarrow> string \<Rightarrow> string \<Rightarrow> string list \<Rightarrow> taskData" where
  "sample txt prio cat tgs =
     \<lparr> d_text = txt, d_completed = None, d_priority = Some prio, d_category = Some cat,
       d_dueDate = None, d_tags = Some tgs, d_metadata = None \<rparr>"

definition sampleTasks :: "taskData list" where
  "sampleTasks =
     [ sample ''Complete TaskFlow project deployment'' ''high'' ''work''
         [''project'', ''deployment''],
       sample ''Review MongoDB integration'' ''medium'' ''development''
         [''database'', ''review''],
       sample ''Test frontend-backend integration'' ''high'' ''testing''
         [''integration'', ''testing''],
       sample ''Update documentation'' ''low'' ''documentation''
         [''docs'', ''readme''],
       sample ''Deploy to production'' ''urgent'' ''deployment''
         [''production'', ''deployment''] ]"

definition initializeSampleData :: "date \<Rightarrow> store \<Rightarrow> store" where
  "initializeSampleData now s =
     (if length (tasks s) = 0
      then foldl (\<lambda>st taskData. snd (InMemoryTask_create now taskData st)) s sampleTasks
      else s)"


section \<open>The Task model (Mongoose schema, hooks and statics)\<close>

text \<open>
  The schema declares, path by path, setters (\<open>trim\<close>, \<open>lowercase\<close>), defaults and
  validators; Mongoose applies the setters and defaults when a document is constructed,
  runs the validators of every path when it is saved (before the \<open>pre('save')\<close> hook of
  the schema), and reports the failing paths together, one message for each path: the
  message of its first failing validator, \<open>required\<close> first and then in the order of the
  declaration.  A document as stored:
\<close>

record doc =
  k_id :: string
  k_text :: string
  k_completed :: bool
  k_priority :: string
  k_category :: string
  k_dueDate :: "date option"
  k_tags :: "string list"
  k_createdAt :: date
  k_lastModified :: date
  k_metadata :: metadata

text \<open>\<open>/<[^>]*>/\<close> matches when some \<open><\<close> is followed, anywhere later, by a \<open>>\<close>.\<close>

fun htmlRegex_test :: "string \<Rightarrow> bool" where
  "htmlRegex_test [] = False"
| "htmlRegex_test (c # cs) = ((c = CHR ''<'' \<and> CHR ''>'' \<in> set cs) \<or> htmlRegex_test cs)"

text \<open>The validators of the paths; \<open>None\<close> when the value passes.  An absent \<open>text\<close> is
  the empty string here: both fail \<open>required\<close>, and both are falsy in the hook.

  The validator of \<open>dueDate\<close> compares the value with \<open>new Date().setHours(0, 0, 0, 0)\<close>,
  the time value of the start of the current day in the local time of the server.  That
  value is the parameter \<open>today\<close>: like the clock, it is read from the environment, and it
  depends on the time zone of the host and its daylight saving rules.\<close>

definition text_error :: "string \<Rightarrow> string option" where
  "text_error v =
     (if v = [] then Some ''Task text is required''
      else if length v < 3 then Some ''Task text must be at least 3 characters''
      else if length v > 255 then Some ''Task text cannot exceed 255 characters''
      else if htmlRegex_test v then Some ''Task text cannot contain HTML tags''
      else None)"

definition priority_error :: "string \<Rightarrow> string option" where
  "priority_error v =
     (if v \<in> set [''low'', ''medium'', ''high''] then None
      else Some ''Priority must be either low, medium, or high'')"

definition category_error :: "string \<Rightarrow> string option" where
  "category_error v = (if length v > 50 then Some ''Category cannot exceed 50 characters'' else None)"

definition dueDate_error :: "date \<Rightarrow> date option \<Rightarrow> string option" where
  "dueDate_error today v =
     (case v of None \<Rightarrow> None
      | Some d \<Rightarrow> if d \<ge> today then None else Some ''Due date cannot be in the past'')"

definition tag_error :: "string \<Rightarrow> string option" where
  "tag_error v = (if length v > 20 then Some ''Tag cannot exceed 20 characters'' else None)"

definition estimatedTime_error :: "int option \<Rightarrow> string option" where
  "estimatedTime_error v =
     (case v of None \<Rightarrow> None
      | Some n \<Rightarrow> if n < 1 then Some ''Estimated time must be at least 1 minute''
                  else if n > 1440
                    then Some ''Estimated time cannot exceed 24 hours (1440 minutes)''
                  else None)"

definition actualTime_error :: "int option \<Rightarrow> string option" where
  "actualTime_error v =
     (case v of None \<Rightarrow> None
      | Some n \<Rightarrow> if n < 1 then Some ''Actual time must be at least 1 minute'' else None)"

text \<open>\<open>difficulty\<close> declares its enumeration without a message, so the message is
  Mongoose's default for an enumeration.\<close>

definition difficulty_error :: "string option \<Rightarrow> string option" where
  "difficulty_error v =
     (case v of None \<Rightarrow> None
      | Some x \<Rightarrow> if x \<in> set [''easy'', ''medium'', ''hard''] then None
                  else Some ([CHR 0x60] @ x @ [CHR 0x60] @ '' is not a valid enum value for path ''
                             @ [CHR 0x60] @ ''metadata.difficulty'' @ [CHR 0x60] @ ''.''))"

text \<open>The entries of \<open>errors\<close>: a failing path contributes its path and message, and the
  element \<open>n\<close> of \<open>tags\<close> is the path \<open>tags.n\<close>.\<close>

definition path_error :: "string \<Rightarrow> string option \<Rightarrow> (string \<times> string) multiset" where
  "path_error path e = (case e of None \<Rightarrow> {#} | Some m \<Rightarrow> {#(path, m)#})"

definition tags_errors :: "string list \<Rightarrow> (string \<times> string) multiset" where
  "tags_errors tgs =
     sum_list (map (\<lambda>(n, tg). path_error (''tags.'' @ String_js n) (tag_error tg))
                 (enumerate 0 tgs))"

definition validate :: "date \<Rightarrow> doc \<Rightarrow> (string \<times> string) multiset" where
  "validate today d =
     path_error ''text'' (text_error (k_text d))
     + path_error ''priority'' (priority_error (k_priority d))
     + path_error ''category'' (category_error (k_category d))
     + path_error ''dueDate'' (dueDate_error today (k_dueDate d))
     + tags_errors (k_tags d)
     + path_error ''metadata.estimatedTime'' (estimatedTime_error (estimatedTime (k_metadata d)))
     + path_error ''metadata.actualTime'' (actualTime_error (actualTime (k_metadata d)))
     + path_error ''metadata.difficulty'' (difficulty_error (difficulty (k_metadata d)))"

text \<open>\<open>new Task(taskData)\<close>: setters and defaults.  \<open>oid\<close> is the fresh \<open>_id\<close>.\<close>

definition new_Task :: "date \<Rightarrow> string \<Rightarrow> body \<Rightarrow> doc" where
  "new_Task now oid taskData =
     \<lparr> k_id = oid,
       k_text = (case b_text taskData of None \<Rightarrow> [] | Some v \<Rightarrow> trim v),
       k_completed = or_else (b_completed taskData) False,
       k_priority = (case b_priority taskData of None \<Rightarrow> ''medium'' | Some v \<Rightarrow> toLowerCase v),
       k_category = (case b_category taskData of None \<Rightarrow> ''general'' | Some v \<Rightarrow> trim v),
       k_dueDate = b_dueDate taskData,
       k_tags = map (\<lambda>tg. toLowerCase (trim tg)) (or_else (b_tags taskData) []),
       k_createdAt = or_else (b_createdAt taskData) now,
       k_lastModified = now,
       k_metadata =
         (case b_metadata taskData of
            None \<Rightarrow> empty_metadata\<lparr> difficulty := Some ''medium'' \<rparr>
          | Some m \<Rightarrow> m\<lparr> difficulty := Some (or_else (difficulty m) ''medium'') \<rparr>) \<rparr>"

text \<open>\<open>text.replace(/\s+/g, ' ')\<close>: every maximal run of white space becomes one space.\<close>

function collapse :: "string \<Rightarrow> string" where
  "collapse [] = []"
| "collapse (c # cs) =
     (if is_space c then CHR '' '' # collapse (dropWhile is_space cs) else c # collapse cs)"
  by pat_completeness auto
termination
  by (relation "measure length") (auto simp: less_Suc_eq_le length_dropWhile_le)

text \<open>The \<open>pre('save')\<close> hook.\<close>

definition pre_save :: "date \<Rightarrow> doc \<Rightarrow> js_error + doc" where
  "pre_save now d =
     (let d1 = d\<lparr> k_lastModified := now \<rparr>;
          d2 = (if k_text d1 \<noteq> [] then d1\<lparr> k_text := trim (collapse (k_text d1)) \<rparr> else d1)
      in if length (k_tags d2) > 10
         then Inl (Error ''Cannot have more than 10 tags per task'')
         else Inr (d2\<lparr> k_tags := filter (\<lambda>tg. tg \<noteq> [] \<and> trim tg \<noteq> []) (k_tags d2) \<rparr>))"

text \<open>\<open>new Task(taskData).save()\<close>: validation, then the hook; the saved document is the
  result.\<close>

definition Task_save :: "date \<Rightarrow> date \<Rightarrow> string \<Rightarrow> body \<Rightarrow> js_error + doc" where
  "Task_save today now oid taskData =
     (let d = new_Task now oid taskData; errs = validate today d
      in if errs \<noteq> {#} then Inl (ValidationError errs) else pre_save now d)"


text \<open>
  \<open>Task.findByIdAndUpdate(id, update, options)\<close> on the collection \<open>docs\<close>.  The update
  is cast by the schema: keys that are not paths of the schema (\<open>id\<close>, \<open>updatedAt\<close>) are
  dropped, the setters run, and \<open>createdAt\<close>, declared \<open>immutable\<close>, is dropped; the key
  \<open>_id\<close> is taken to be absent.  The \<open>pre('findOneAndUpdate')\<close> hook and the
  \<open>timestamps\<close> option set \<open>lastModified\<close> to the current time.  With \<open>runValidators\<close>
  the validators of the paths the update carries are run first.  Both controllers pass
  \<open>new: true\<close>, so the result is the updated document.
\<close>

definition cast_update :: "patch \<Rightarrow> patch" where
  "cast_update u =
     u\<lparr> p_id := None, p_updatedAt := None, p_createdAt := None,
        p_text := map_option trim (p_text u),
        p_priority := map_option toLowerCase (p_priority u),
        p_category := map_option trim (p_category u),
        p_tags := map_option (map (\<lambda>tg. toLowerCase (trim tg))) (p_tags u) \<rparr>"

definition on_key :: "'a option \<Rightarrow> ('a \<Rightarrow> 'b multiset) \<Rightarrow> 'b multiset" where
  "on_key key f = (case key of None \<Rightarrow> {#} | Some v \<Rightarrow> f v)"

definition update_errors :: "date \<Rightarrow> patch \<Rightarrow> (string \<times> string) multiset" where
  "update_errors today u =
     on_key (p_text u) (\<lambda>v. path_error ''text'' (text_error v))
     + on_key (p_priority u) (\<lambda>v. path_error ''priority'' (priority_error v))
     + on_key (p_category u) (\<lambda>v. path_error ''category'' (category_error v))
     + on_key (p_dueDate u) (\<lambda>v. path_error ''dueDate'' (dueDate_error today v))
     + on_key (p_tags u) tags_errors
     + on_key (p_metadata u) (\<lambda>m.
         path_error ''metadata.estimatedTime'' (estimatedTime_error (estimatedTime m))
         + path_error ''metadata.actualTime'' (actualTime_error (actualTime m))
         + path_error ''metadata.difficulty'' (difficulty_error (difficulty m)))"

definition apply_update :: "date \<Rightarrow> doc \<Rightarrow> patch \<Rightarrow> doc" where
  "apply_update now d u =
     \<lparr> k_id = k_id d,
       k_text = or_else (p_text u) (k_text d),
       k_completed = or_else (p_completed u) (k_completed d),
       k_priority = or_else (p_priority u) (k_priority d),
       k_category = or_else (p_category u) (k_category d),
       k_dueDate = or_else (p_dueDate u) (k_dueDate d),
       k_tags = or_else (p_tags u) (k_tags d),
       k_createdAt = or_else (p_createdAt u) (k_createdAt d),
       k_lastModified = now,
       k_metadata = or_else (p_metadata u) (k_metadata d) \<rparr>"

definition Task_findByIdAndUpdate ::
  "date \<Rightarrow> date \<Rightarrow> bool \<Rightarrow> string \<Rightarrow> patch \<Rightarrow> doc list \<Rightarrow> (js_error + doc option) \<times> doc list" where
  "Task_findByIdAndUpdate today now runValidators i update docs =
     (let u = cast_update update;
          errs = (if runValidators then update_errors today u else {#})
      in if errs \<noteq> {#} then (Inl (ValidationError errs), docs)
         else (case findIndex (\<lambda>d. k_id d = i) docs of
                 None \<Rightarrow> (Inr None, docs)
               | Some n \<Rightarrow>
                   (let d' = apply_update now (docs ! n) u
                    in (Inr (Some d'), docs[n := d']))))"

definition Task_findById :: "string \<Rightarrow> doc list \<Rightarrow> doc option" where
  "Task_findById i docs = List.find (\<lambda>d. k_id d = i) docs"


text \<open>
  The virtual property \<open>isOverdue\<close> of a document: false when the task has no due date or
  is completed, and otherwise \<open>new Date() > this.dueDate\<close>.
\<close>

definition isOverdue :: "date \<Rightarrow> doc \<Rightarrow> bool" where
  "isOverdue now d =
     (case k_dueDate d of None \<Rightarrow> False
      | Some due \<Rightarrow> if k_completed d then False else now > due)"

text \<open>
  The numbers of the aggregation pipeline.  \<open>$divide\<close> and \<open>$multiply\<close> compute in IEEE
  754 double precision: the result is the exact quotient or product, rounded to the nearest
  double, a tie going to the double whose significand is even.  A double is represented by
  the rational number it denotes, and \<open>to_double x\<close> is the double nearest to a rational
  \<open>x \<ge> 0\<close>: with \<open>e = binary_exponent x\<close>, the integer such that \<open>2 powi e \<le> x\<close> and
  \<open>x < 2 powi (e + 1)\<close>, the doubles around \<open>x\<close> are the multiples of \<open>2 powi (e - 52)\<close>.
  (The exponent is not bounded here: the quotients and products of the statistics lie
  between \<open>2 powi (- 53)\<close> and 100, far from the subnormal doubles and from overflow.  The
  counts are integers below \<open>2 ^ 53\<close>, which are doubles.)
\<close>

definition round_half_even :: "rat \<Rightarrow> int" where
  "round_half_even y =
     (let f = \<lfloor>y\<rfloor>; r = y - of_int f
      in if r < 1 / 2 then f else if 1 / 2 < r then f + 1 else if even f then f else f + 1)"

definition binary_exponent :: "rat \<Rightarrow> int" where
  "binary_exponent x =
     (if 1 \<le> x then int (floorlog 2 (nat \<lfloor>x\<rfloor>)) - 1
      else - int (floorlog 2 (nat (\<lceil>1 / x\<rceil> - 1))))"

definition to_double :: "rat \<Rightarrow> rat" where
  "to_double x =
     (if x = 0 then 0
      else (let e = binary_exponent x
            in of_int (round_half_even (x * 2 powi (52 - e))) * 2 powi (e - 52)))"

text \<open>
  \<open>$lt\<close> of the aggregation pipeline, applied to the field \<open>dueDate\<close> of a document and a
  date.  The operator compares values of any type in the comparison order of BSON, in
  which a missing field and \<open>null\<close> come before every date: for a document without due date
  the comparison is true.
\<close>

definition dollar_lt :: "date option \<Rightarrow> date \<Rightarrow> bool" where
  "dollar_lt v date = (case v of None \<Rightarrow> True | Some x \<Rightarrow> x < date)"

text \<open>
  \<open>Task.getStatistics\<close>: one \<open>$group\<close> over the whole collection and a \<open>$project\<close>; on
  an empty collection the pipeline gives no group and the zero object is returned.  The
  sums are integers; \<open>completionRate\<close> is \<open>0\<close> or the double
  \<open>$multiply [$divide [completed, total], 100]\<close>, which the pipeline does not round further.
\<close>

definition Task_getStatistics :: "date \<Rightarrow> doc list \<Rightarrow> stats" where
  "Task_getStatistics now docs =
     (if docs = []
      then \<lparr> st_total = 0, st_completed = 0, st_active = 0, st_overdue = Some 0,
             st_completionRate = Some 0, st_byPriority = None, st_byCategory = None \<rparr>
      else
        (let total = length docs;
             completed = length (filter k_completed docs)
         in \<lparr> st_total = total,
              st_completed = completed,
              st_active = length (filter (\<lambda>d. \<not> k_completed d) docs),
              st_overdue = Some (length (filter
                 (\<lambda>d. dollar_lt (k_dueDate d) now \<and> k_completed d = False) docs)),
              st_completionRate = Some (if total = 0 then 0
                 else to_double (to_double (of_nat completed / of_nat total) * 100)),
              st_byPriority = None,
              st_byCategory = None \<rparr>))"


section \<open>The controllers\<close>

subsection \<open>Choice of the model\<close>

text \<open>\<open>mongoose.connection.readyState\<close> is \<open>1\<close> when the connection is established
  (\<open>0\<close> disconnected, \<open>2\<close> connecting, \<open>3\<close> disconnecting).  Both controllers define
  \<open>isMongoAvailable\<close> and \<open>getTaskModel\<close> in the same way.\<close>

datatype model = Task | InMemoryTask

definition isMongoAvailable :: "nat \<Rightarrow> bool" where
  "isMongoAvailable readyState = (readyState = 1)"

definition getTaskModel :: "nat \<Rightarrow> model" where
  "getTaskModel readyState = (if isMongoAvailable readyState then Task else InMemoryTask)"

datatype operation =
  ListTasks | GetTaskById | CreateTask | UpdateTask | DeleteTask | SearchTasks | TaskStatistics

text \<open>The model on which a handler runs its storage calls.  Every handler of the
  simplified controller starts with \<open>const TaskModel = await getTaskModel()\<close> and calls
  \<open>TaskModel\<close> (\<open>searchTasks\<close> through \<open>getAllTasks\<close>).  The handlers of
  \<open>taskController.js\<close> call the imported \<open>Task\<close> directly (\<open>Task.find\<close>,
  \<open>Task.countDocuments\<close>, \<open>Task.findById\<close>, \<open>new Task\<close>, \<open>Task.findByIdAndUpdate\<close>,
  \<open>Task.findByIdAndDelete\<close>, \<open>Task.getStatistics\<close>, \<open>Task.aggregate\<close>); the
  \<open>getTaskModel\<close> defined there is never called.\<close>

fun simplified_model :: "operation \<Rightarrow> nat \<Rightarrow> model" where
  "simplified_model ListTasks readyState = getTaskModel readyState"
| "simplified_model GetTaskById readyState = getTaskModel readyState"
| "simplified_model CreateTask readyState = getTaskModel readyState"
| "simplified_model UpdateTask readyState = getTaskModel readyState"
| "simplified_model DeleteTask readyState = getTaskModel readyState"
| "simplified_model SearchTasks readyState = getTaskModel readyState"
| "simplified_model TaskStatistics readyState = getTaskModel readyState"

fun taskController_model :: "operation \<Rightarrow> nat \<Rightarrow> model" where
  "taskController_model ListTasks readyState = Task"
| "taskController_model GetTaskById readyState = Task"
| "taskController_model CreateTask readyState = Task"
| "taskController_model UpdateTask readyState = Task"
| "taskController_model DeleteTask readyState = Task"
| "taskController_model SearchTasks readyState = Task"
| "taskController_model TaskStatistics readyState = Task"

subsection \<open>Responses\<close>

text \<open>A response is its HTTP status and the keys of its JSON body; \<open>None\<close> is a key the
  body does not have.  \<open>details\<close> is a string or an array of strings; the array is the
  multiset of its elements, since it is built from the entries of \<open>error.errors\<close>, whose
  order is not represented.  The optional fields of \<open>pagination\<close> are the keys only one of
  the controllers writes.\<close>

datatype details = Messages "string multiset" | Message string

datatype jsnum = Num int | Infinity | NaN

record pagination =
  currentPage :: int
  totalPages :: "jsnum option"
  totalItems :: int
  itemsPerPage :: int
  hasNextPage :: "bool option"
  hasPrevPage :: "bool option"

record 'a response =
  r_status :: nat
  r_success :: "bool option"
  r_message :: "string option"
  r_error :: "string option"
  r_details :: "details option"
  r_data :: "'a option"
  r_storage :: "string option"
  r_pagination :: "pagination option"

definition failure :: "nat \<Rightarrow> string \<Rightarrow> details option \<Rightarrow> 'a response" where
  "failure code err det =
     \<lparr> r_status = code, r_success = Some False, r_message = None, r_error = Some err,
       r_details = det, r_data = None, r_storage = None, r_pagination = None \<rparr>"

definition success :: "nat \<Rightarrow> string \<Rightarrow> 'a option \<Rightarrow> string option \<Rightarrow> 'a response" where
  "success code msg dat sto =
     \<lparr> r_status = code, r_success = Some True, r_message = Some msg, r_error = None,
       r_details = None, r_data = dat, r_storage = sto, r_pagination = None \<rparr>"

definition not_found :: "string \<Rightarrow> 'a response" where
  "not_found i = failure 404 ''Task not found'' (Some (Message (''No task found with ID: '' @ i)))"

subsection \<open>The simplified controller on the in-memory model\<close>

text \<open>The handlers of the simplified controller as they run when \<open>getTaskModel\<close> gives
  \<open>InMemoryTask\<close>, that is when \<open>isMongoAvailable()\<close> is false (the \<open>storage\<close> key is then
  \<open>'memory'\<close>).  \<open>development\<close> is \<open>process.env.NODE_ENV === 'development'\<close>.\<close>

definition handleError :: "bool \<Rightarrow> js_error \<Rightarrow> 'a response" where
  "handleError development e =
     failure 500 ''Operation failed''
       (Some (Message (if development then e_message e else ''Internal server error'')))"

definition text_required :: "'a response" where
  "text_required =
     failure 400 ''Task text is required'' (Some (Message ''Please provide task text''))"

definition createTask_memory :: "date \<Rightarrow> body \<Rightarrow> store \<Rightarrow> mtask response \<times> store" where
  "createTask_memory now taskData s =
     (case b_text taskData of
        None \<Rightarrow> (text_required, s)
      | Some txt \<Rightarrow>
          if txt = [] \<or> length (trim txt) = 0 then (text_required, s)
          else
            (let (savedTask, s') = InMemoryTask_create now
                   \<lparr> d_text = trim txt,
                     d_completed = Some (or_else (b_completed taskData) False),
                     d_priority = Some (or_str (b_priority taskData) ''medium''),
                     d_category = Some (or_str (b_category taskData) ''general''),
                     d_dueDate = b_dueDate taskData,
                     d_tags = Some (or_else (b_tags taskData) []),
                     d_metadata = None \<rparr> s
             in (success 201 ''Task created successfully'' (Some savedTask) (Some ''memory''), s')))"

definition getTaskById_memory :: "string \<Rightarrow> store \<Rightarrow> mtask response" where
  "getTaskById_memory i s =
     (case InMemoryTask_findById i s of
        None \<Rightarrow> not_found i
      | Some task \<Rightarrow> success 200 ''Task retrieved successfully'' (Some task) (Some ''memory''))"

definition updateTask_memory ::
  "bool \<Rightarrow> date \<Rightarrow> string \<Rightarrow> patch \<Rightarrow> store \<Rightarrow> mtask response \<times> store" where
  "updateTask_memory development now i updateData s =
     (case InMemoryTask_findByIdAndUpdate now i (updateData\<lparr> p_updatedAt := Some now \<rparr>)
             (Some \<lparr> o_new = Some True \<rparr>) s of
        (Inl e, s') \<Rightarrow> (handleError development e, s')
      | (Inr None, s') \<Rightarrow> (not_found i, s')
      | (Inr (Some updatedTask), s') \<Rightarrow>
          (success 200 ''Task updated successfully'' (Some updatedTask) (Some ''memory''), s'))"



text \<open>\<open>getAllTasks\<close> of the simplified controller on the in-memory model.  \<open>lq_limit\<close>
  and \<open>lq_page\<close> are the values \<open>parseInt\<close> reads from the query, when the keys are
  present.\<close>

record list_query =
  lq_completed :: "string option"
  lq_priority :: "string option"
  lq_search :: "string option"
  lq_limit :: "int option"
  lq_page :: "int option"

definition getAllTasks_memory :: "list_query \<Rightarrow> store \<Rightarrow> mtask list response" where
  "getAllTasks_memory q s =
     (let limit = or_else (lq_limit q) 50;
          page = or_else (lq_page q) 1;
          filt = \<lparr> q_completed = map_option (\<lambda>c. c = ''true'') (lq_completed q),
                   q_priority = (case lq_priority q of None \<Rightarrow> None
                                 | Some v \<Rightarrow> if v = [] then None else Some (toLowerCase v)),
                   q_category = None,
                   q_search = None \<rparr>;
          found = InMemoryTask_find filt s;
          searched = filter_if (lq_search q) (\<lambda>v. search_match (toLowerCase v)) found;
          skip = (page - 1) * limit;
          page_tasks = slice skip (skip + limit) searched;
          totalCount = length page_tasks
      in (success 200 (''Retrieved '' @ String_js (length page_tasks) @ '' tasks'')
            (Some page_tasks) (Some ''memory''))
         \<lparr> r_pagination := Some \<lparr> currentPage = page, totalPages = None,
              totalItems = int totalCount, itemsPerPage = limit,
              hasNextPage = None, hasPrevPage = None \<rparr> \<rparr>)"

definition getTaskStatistics_memory :: "store \<Rightarrow> stats response" where
  "getTaskStatistics_memory s =
     success 200 ''Statistics retrieved successfully'' (Some (InMemoryTask_aggregate s))
       (Some ''memory'')"

subsection \<open>The simplified controller on the Task model\<close>

text \<open>\<open>createTask\<close> of the simplified controller as it runs when \<open>getTaskModel\<close> gives
  \<open>Task\<close> (the \<open>storage\<close> key is then \<open>'mongodb'\<close>): \<open>TaskModel.create\<close> constructs a document
  from the object the handler builds and saves it.\<close>

definition simplified_payload :: "string \<Rightarrow> body \<Rightarrow> body" where
  "simplified_payload raw taskData =
     \<lparr> b_text = Some (trim raw),
       b_completed = Some (or_else (b_completed taskData) False),
       b_priority = Some (or_str (b_priority taskData) ''medium''),
       b_category = Some (or_str (b_category taskData) ''general''),
       b_dueDate = b_dueDate taskData,
       b_tags = Some (or_else (b_tags taskData) []),
       b_metadata = None,
       b_createdAt = None \<rparr>"

definition createTask_mongodb ::
  "bool \<Rightarrow> date \<Rightarrow> date \<Rightarrow> string \<Rightarrow> body \<Rightarrow> doc list \<Rightarrow> doc response \<times> doc list" where
  "createTask_mongodb development today now oid taskData docs =
     (case b_text taskData of
        None \<Rightarrow> (text_required, docs)
      | Some raw \<Rightarrow>
          if raw = [] \<or> length (trim raw) = 0 then (text_required, docs)
          else
            (case Task_save today now oid (simplified_payload raw taskData) of
               Inl e \<Rightarrow> (handleError development e, docs)
             | Inr savedTask \<Rightarrow>
                 (success 201 ''Task created successfully'' (Some savedTask) (Some ''mongodb''),
                  docs @ [savedTask])))"

subsection \<open>taskController.js on the Task model\<close>

text \<open>\<open>isValid\<close> stands for \<open>mongoose.Types.ObjectId.isValid\<close>, and \<open>oid\<close> for the
  identifier a new document receives.  \<open>handleDBError\<close> tests the name of the error for
  \<open>'ValidationError'\<close>, then its code for 11000, then its name for \<open>'CastError'\<close>; of the
  four kinds of error only the driver's has a code.\<close>

definition database_failed :: "bool \<Rightarrow> string \<Rightarrow> 'a response" where
  "database_failed development m =
     failure 500 ''Database operation failed''
       (Some (Message (if development then m else ''Internal server error'')))"

fun handleDBError :: "bool \<Rightarrow> js_error \<Rightarrow> 'a response" where
  "handleDBError development (ValidationError errs) =
     failure 400 ''Validation failed'' (Some (Messages (image_mset snd errs)))"
| "handleDBError development (MongoServerError c m) =
     (if c = 11000
      then failure 409 ''Duplicate entry''
             (Some (Message ''A task with similar content already exists''))
      else database_failed development m)"
| "handleDBError development (CastError m) =
     failure 400 ''Invalid ID format''
       (Some (Message ''The provided ID is not a valid MongoDB ObjectId''))"
| "handleDBError development (Error m) = database_failed development m"

definition invalid_id :: "'a response" where
  "invalid_id = failure 400 ''Invalid task ID format'' None"


definition createTask :: "bool \<Rightarrow> date \<Rightarrow> date \<Rightarrow> string \<Rightarrow> body \<Rightarrow> doc list \<Rightarrow> doc response \<times> doc list" where
  "createTask development today now oid taskData docs =
     (case Task_save today now oid taskData of
        Inl e \<Rightarrow> (handleDBError development e, docs)
      | Inr savedTask \<Rightarrow>
          (success 201 ''Task created successfully'' (Some savedTask) None, docs @ [savedTask]))"

definition updateTask ::
  "bool \<Rightarrow> (string \<Rightarrow> bool) \<Rightarrow> date \<Rightarrow> date \<Rightarrow> string \<Rightarrow> patch \<Rightarrow> doc list \<Rightarrow> doc response \<times> doc list" where
  "updateTask development isValid today now i updateData docs =
     (if \<not> isValid i then (invalid_id, docs)
      else (case Task_findByIdAndUpdate today now True i
                   (updateData\<lparr> p_lastModified := Some now \<rparr>) docs of
              (Inl e, docs') \<Rightarrow> (handleDBError development e, docs')
            | (Inr None, docs') \<Rightarrow> (not_found i, docs')
            | (Inr (Some updatedTask), docs') \<Rightarrow>
                (success 200 ''Task updated successfully'' (Some updatedTask) None, docs')))"


text \<open>The pagination metadata of \<open>getAllTasks\<close>, from \<open>parseInt(page)\<close>,
  \<open>parseInt(limit)\<close> and the \<open>totalCount\<close> that \<open>Task.countDocuments(filter)\<close> returned.
  \<open>Math.ceil(totalCount / limit)\<close> is \<open>Infinity\<close> or \<open>NaN\<close> when the limit is \<open>0\<close>.\<close>

definition ceil_div :: "int \<Rightarrow> int \<Rightarrow> jsnum" where
  "ceil_div a b = (if b = 0 then (if a = 0 then NaN else Infinity) else Num (- ((- a) div b)))"

definition num_less :: "int \<Rightarrow> jsnum \<Rightarrow> bool" where
  "num_less p n = (case n of Num k \<Rightarrow> p < k | Infinity \<Rightarrow> True | NaN \<Rightarrow> False)"

definition getAllTasks_pagination :: "int \<Rightarrow> int \<Rightarrow> nat \<Rightarrow> pagination" where
  "getAllTasks_pagination page limit totalCount =
     (let totalPages = ceil_div (int totalCount) limit;
          hasNextPage = num_less page totalPages;
          hasPrevPage = (page > 1)
      in \<lparr> currentPage = page, totalPages = Some totalPages, totalItems = int totalCount,
           itemsPerPage = limit, hasNextPage = Some hasNextPage,
           hasPrevPage = Some hasPrevPage \<rparr>)"

definition getAllTasks_response :: "int \<Rightarrow> int \<Rightarrow> doc list \<Rightarrow> nat \<Rightarrow> doc list response" where
  "getAllTasks_response page limit found totalCount =
     (success 200 (''Retrieved '' @ String_js (length found) @ '' tasks'') (Some found) None)
     \<lparr> r_pagination := Some (getAllTasks_pagination page limit totalCount) \<rparr>"


text \<open>A list request that carries only \<open>page\<close> and \<open>limit\<close>.\<close>

definition page_query :: "int \<Rightarrow> int \<Rightarrow> list_query" where
  "page_query page limit = \<lparr> lq_completed = None, lq_priority = None, lq_search = None,
     lq_limit = Some limit, lq_page = Some page \<rparr>"

text \<open>Two notions for stating the normalisation of a text: a string is trimmed when it is
  empty or neither begins nor ends with white space, and \<open>angle\<close> singles out the two
  characters the tag pattern looks at.\<close>

definition trimmed :: "string \<Rightarrow> bool" where
  "trimmed s = (s = [] \<or> (\<not> is_space (hd s) \<and> \<not> is_space (last s)))"

definition angle :: "char \<Rightarrow> bool" where
  "angle c = (c = CHR ''<'' \<or> c = CHR ''>'')"

text \<open>A list of eleven tags, one more than the hook allows.\<close>

definition eleven_tags :: "string list" where
  "eleven_tags = [''t1'', ''t2'', ''t3'', ''t4'', ''t5'', ''t6'', ''t7'', ''t8'', ''t9'', ''t10'', ''t11'']"

text \<open>The enumeration of the schema's \<open>priority\<close>.\<close>

definition priorities :: "string set" where
  "priorities = set [''low'', ''medium'', ''high'']"

text \<open>The number a string of decimal digits denotes, and the state of the store in which
  the identifiers are as \<open>create\<close> assigns them: every task has the same \<open>_id\<close> and
  \<open>id\<close>, taken from the counter, and no two tasks share one.\<close>

definition decimal_value :: "string \<Rightarrow> nat" where
  "decimal_value ds = foldl (\<lambda>acc c. 10 * acc + (of_char c - 48)) 0 ds"

definition unique_ids :: "store \<Rightarrow> bool" where
  "unique_ids s =
     (distinct (map t_uid (tasks s))
      \<and> list_all (\<lambda>t. t_id t = t_uid t
                      \<and> t_uid t \<in> String_js ` set [0..<nextId s]) (tasks s))"

section \<open>Auxiliary facts\<close>

text \<open>Unfolding rules for evaluating the operations on concrete stores.\<close>

lemmas mem_eval = initializeSampleData_def initial_store_def sampleTasks_def sample_def
  InMemoryTask_create_def has_id_def String_js.simps digit_char_def or_str_def or_else_def
  Let_def createTask_memory_def text_only_def trim_def is_space_def updateTask_memory_def
  InMemoryTask_findByIdAndUpdate_def InMemoryTask_findByIdAndDelete_def
  InMemoryTask_findById_def spread_def empty_patch_def options_new_def splice1_def
  success_def

lemmas doc_eval = createTask_def Task_save_def new_Task_def validate_def pre_save_def
  text_only_def trim_def is_space_def text_error_def priority_error_def category_error_def
  dueDate_error_def tags_errors_def estimatedTime_error_def actualTime_error_def
  difficulty_error_def path_error_def empty_metadata_def or_else_def Let_def

lemma findIndex_None: "findIndex P xs = None \<longleftrightarrow> (\<forall>x \<in> set xs. \<not> P x)"
  by (induction xs) auto

lemma findIndex_Some:
  "findIndex P xs = Some i \<Longrightarrow> i < length xs \<and> P (xs ! i) \<and> (\<forall>j < i. \<not> P (xs ! j))"
proof (induction xs arbitrary: i)
  case Nil
  then show ?case by simp
next
  case (Cons x xs)
  show ?case
  proof (cases "P x")
    case True
    with Cons.prems show ?thesis by simp
  next
    case False
    with Cons.prems obtain k where k: "findIndex P xs = Some k" "i = Suc k"
      by auto
    from Cons.IH [OF k(1)] False k(2) show ?thesis
      by (auto simp: less_Suc_eq_0_disj)
  qed
qed

lemma splice1_no_match:
  "findIndex P xs = Some k \<Longrightarrow> length (filter P xs) \<le> 1 \<Longrightarrow> \<forall>x \<in> set (splice1 k xs). \<not> P x"
proof (induction xs arbitrary: k)
  case Nil
  then show ?case by simp
next
  case (Cons x xs)
  show ?case
  proof (cases "P x")
    case True
    with Cons.prems have "k = 0" "filter P xs = []" by auto
    then show ?thesis by (auto simp: splice1_def filter_empty_conv)
  next
    case False
    with Cons.prems obtain j where j: "findIndex P xs = Some j" "k = Suc j" by auto
    from Cons.prems False have "length (filter P xs) \<le> 1" by simp
    from Cons.IH [OF j(1) this] False j(2) show ?thesis
      by (auto simp: splice1_def)
  qed
qed

lemma find_after_splice1:
  assumes "length (filter P xs) \<le> 1"
  shows "List.find P (case findIndex P xs of None \<Rightarrow> xs | Some k \<Rightarrow> splice1 k xs) = None"
proof (cases "findIndex P xs")
  case None
  moreover from None have "\<forall>x \<in> set xs. \<not> P x" by (simp add: findIndex_None)
  ultimately show ?thesis by (simp add: find_None_iff)
next
  case (Some k)
  from splice1_no_match [OF Some assms] Some show ?thesis
    by (simp add: find_None_iff)
qed

lemma distinct_filter_le1: "distinct (map f xs) \<Longrightarrow> length (filter (\<lambda>x. f x = i) xs) \<le> 1"
proof (induction xs)
  case Nil
  then show ?case by simp
next
  case (Cons x xs)
  show ?case
  proof (cases "f x = i")
    case True
    from Cons.prems have "f x \<notin> f ` set xs" by simp
    with True have "\<forall>y \<in> set xs. f y \<noteq> i" by blast
    then have "filter (\<lambda>x. f x = i) xs = []" by (simp add: filter_empty_conv)
    with True show ?thesis by simp
  next
    case False
    with Cons show ?thesis by simp
  qed
qed

lemma find_findIndex: "List.find P xs = Some x \<Longrightarrow> \<exists>k. findIndex P xs = Some k \<and> xs ! k = x"
  by (induction xs) (auto split: if_splits)

lemma mem_delete_snd:
  "tasks (snd (InMemoryTask_findByIdAndDelete i s)) =
     (case findIndex (has_id i) (tasks s) of None \<Rightarrow> tasks s | Some k \<Rightarrow> splice1 k (tasks s))"
  by (simp add: InMemoryTask_findByIdAndDelete_def split: option.splits)



lemma spread_updatedAt: "spread now t (p\<lparr> p_updatedAt := Some x \<rparr>) = spread now t p"
  by (simp add: spread_def)

lemma mem_update_found:
  assumes "InMemoryTask_findById i s = Some t"
  shows "fst (InMemoryTask_findByIdAndUpdate now i p opts s) = Inr (Some (spread now t p))"
proof -
  from assms obtain k where k: "findIndex (has_id i) (tasks s) = Some k" "tasks s ! k = t"
    using find_findIndex [of "has_id i" "tasks s" t] by (auto simp: InMemoryTask_findById_def)
  then show ?thesis
    by (simp add: InMemoryTask_findByIdAndUpdate_def Let_def)
qed

lemma mem_update_stored:
  assumes "InMemoryTask_findById i s = Some t"
  shows "spread now t p \<in> set (tasks (snd (InMemoryTask_findByIdAndUpdate now i p opts s)))"
proof -
  from assms obtain k where k: "findIndex (has_id i) (tasks s) = Some k" "tasks s ! k = t"
    using find_findIndex [of "has_id i" "tasks s" t] by (auto simp: InMemoryTask_findById_def)
  from findIndex_Some [OF k(1)] have "k < length (tasks s)" by simp
  then have "spread now t p \<in> set ((tasks s)[k := spread now t p])"
    by (rule set_update_memI)
  with k show ?thesis
    by (simp add: InMemoryTask_findByIdAndUpdate_def Let_def)
qed

lemma doc_update_found:
  assumes "Task_findById i docs = Some d"
    and "fst (Task_findByIdAndUpdate today now rv i p docs) = Inr (Some d')"
  shows "d' = apply_update now d (cast_update p)"
proof -
  from assms(1) obtain k where k: "findIndex (\<lambda>d. k_id d = i) docs = Some k" "docs ! k = d"
    using find_findIndex [of "\<lambda>d. k_id d = i" docs d] by (auto simp: Task_findById_def)
  with assms(2) show ?thesis
    by (auto simp: Task_findByIdAndUpdate_def Let_def split: if_splits)
qed


lemmas upd_eval = Task_findByIdAndUpdate_def Task_findById_def cast_update_def
  update_errors_def on_key_def apply_update_def toLowerCase_def lower_char_def

lemma ceil_div_pos:
  assumes "0 < b"
  shows "ceil_div a b = Num \<lceil>real_of_int a / real_of_int b\<rceil>"
  using assms by (simp add: ceil_div_def ceiling_divide_eq_div)


lemmas list_eval = getAllTasks_memory_def InMemoryTask_find_def InMemoryTask_countDocuments_def
  filter_if_def slice_def slice_index_def empty_query_def page_query_def

lemma length_filter_not: "length (filter (\<lambda>x. \<not> P x) xs) = length xs - length (filter P xs)"
  using sum_length_filter_compl [of P xs] by simp

lemma length_collapse_le: "length (collapse s) \<le> length s"
proof (induction s rule: collapse.induct)
  case 1
  then show ?case by simp
next
  case (2 c cs)
  show ?case
  proof (cases "is_space c")
    case True
    with 2 have "length (collapse (dropWhile is_space cs)) \<le> length (dropWhile is_space cs)" by simp
    also have "\<dots> \<le> length cs" by (rule length_dropWhile_le)
    finally show ?thesis using True by simp
  next
    case False
    with 2 show ?thesis by simp
  qed
qed

lemma trimmed_trim: "trimmed (trim s)"
proof -
  let ?u = "dropWhile is_space s"
  let ?w = "dropWhile is_space (rev ?u)"
  show ?thesis
  proof (cases "?w = []")
    case True
    then show ?thesis by (simp add: trimmed_def trim_def)
  next
    case False
    then have hw: "\<not> is_space (hd ?w)" by (rule hd_dropWhile)
    have u: "?u \<noteq> []"
    proof
      assume "?u = []"
      then have "?w = []" by (metis dropWhile.simps(1) rev.simps(1))
      with False show False ..
    qed
    then have hu: "\<not> is_space (hd ?u)" by (rule hd_dropWhile)
    obtain ps where ps: "rev ?u = ps @ ?w"
      by (metis takeWhile_dropWhile_id)
    with False have "last ?w = last (rev ?u)" by (metis last_appendR)
    also have "\<dots> = hd ?u" using u by (metis last_rev)
    finally have lw: "\<not> is_space (last ?w)" using hu by simp
    have "hd (rev ?w) = last ?w" "last (rev ?w) = hd ?w"
      using False by (metis hd_rev, metis last_rev)
    with hw lw have "\<not> is_space (hd (rev ?w)) \<and> \<not> is_space (last (rev ?w))"
      by simp
    then show ?thesis
      unfolding trimmed_def trim_def by (rule disjI2)
  qed
qed

lemma trim_trimmed: "trimmed s \<Longrightarrow> trim s = s"
proof (cases s)
  case Nil
  then show ?thesis by (simp add: trim_def)
next
  case (Cons a as)
  assume "trimmed s"
  with Cons have a: "\<not> is_space a" and l: "\<not> is_space (last s)"
    by (auto simp: trimmed_def)
  from Cons have ne: "rev s \<noteq> []" by simp
  from ne obtain x xs where x: "rev s = x # xs" by (cases "rev s") auto
  have "hd (rev s) = last s" using Cons by (simp add: hd_rev)
  with x l have "\<not> is_space x" by simp
  with x have "dropWhile is_space (rev s) = rev s" by simp
  moreover from a Cons have "dropWhile is_space s = s" by simp
  ultimately show ?thesis by (simp add: trim_def)
qed

lemma dropWhile_snoc_keep:
  "\<not> P b \<Longrightarrow> dropWhile P (cs @ [b]) = dropWhile P cs @ [b]"
  by (induction cs) auto

lemma collapse_snoc:
  "\<not> is_space b \<Longrightarrow> \<exists>ys. collapse (m @ [b]) = ys @ [b] \<and> (m \<noteq> [] \<longrightarrow> ys \<noteq> [])"
proof (induction m rule: collapse.induct)
  case 1
  then show ?case by simp
next
  case (2 c cs)
  show ?case
  proof (cases "is_space c")
    case True
    with 2 obtain ys where "collapse (dropWhile is_space cs @ [b]) = ys @ [b]" by blast
    with True 2(3) show ?thesis
      by (simp add: dropWhile_snoc_keep)
  next
    case False
    with 2 obtain ys where "collapse (cs @ [b]) = ys @ [b]" by blast
    with False show ?thesis by simp
  qed
qed

lemma collapse_trimmed:
  assumes "trimmed t"
  shows "trimmed (collapse t)" and "3 \<le> length t \<Longrightarrow> 3 \<le> length (collapse t)"
proof -
  show "trimmed (collapse t)"
  proof (cases t)
    case Nil
    then show ?thesis by (simp add: trimmed_def)
  next
    case (Cons a as)
    with assms have a: "\<not> is_space a" and l: "\<not> is_space (last t)"
      by (auto simp: trimmed_def)
    from Cons obtain m b where mb: "t = m @ [b]"
      by (metis list.distinct(1) rev_exhaust)
    with l have b: "\<not> is_space b" by simp
    from collapse_snoc [OF b, of m] mb obtain ys where ys: "collapse t = ys @ [b]" by blast
    from Cons a have "hd (collapse t) = a" by simp
    with ys a b show ?thesis by (simp add: trimmed_def)
  qed
  show "3 \<le> length (collapse t)" if len: "3 \<le> length t"
  proof -
    from len obtain a as where Cons: "t = a # as" by (cases t) auto
    with assms have a: "\<not> is_space a" and l: "\<not> is_space (last t)"
      by (auto simp: trimmed_def)
    from len Cons have "as \<noteq> []" by auto
    then obtain m b where mb1: "as = m @ [b]" by (metis rev_exhaust)
    with len Cons have "m \<noteq> []" by auto
    with mb1 have mb: "as = m @ [b]" "m \<noteq> []" by simp_all
    with l Cons have b: "\<not> is_space b" by simp
    from collapse_snoc [OF b, of m] mb obtain ys where ys: "collapse as = ys @ [b]" "ys \<noteq> []"
      by blast
    from Cons a ys have "collapse t = a # ys @ [b]" by simp
    with ys(2) show ?thesis by (cases ys) auto
  qed
qed

lemma collapse_not_space_head:
  "ys = [] \<or> \<not> is_space (hd ys) \<Longrightarrow> dropWhile is_space (collapse ys) = collapse ys"
  by (cases ys) auto

lemma collapse_idem: "collapse (collapse s) = collapse s"
proof (induction s rule: collapse.induct)
  case 1
  then show ?case by simp
next
  case (2 c cs)
  show ?case
  proof (cases "is_space c")
    case True
    have sp: "is_space (CHR '' '')" by (simp add: is_space_def)
    have "dropWhile is_space cs = [] \<or> \<not> is_space (hd (dropWhile is_space cs))"
      using hd_dropWhile [of is_space cs] by blast
    then have "dropWhile is_space (collapse (dropWhile is_space cs)) = collapse (dropWhile is_space cs)"
      by (rule collapse_not_space_head)
    with True 2 sp show ?thesis by simp
  next
    case False
    with 2 show ?thesis by simp
  qed
qed

lemma htmlRegex_test_filter: "htmlRegex_test (filter angle s) = htmlRegex_test s"
  by (induction s) (auto simp: angle_def)

lemma angle_not_space: "angle c \<Longrightarrow> \<not> is_space c"
  by (auto simp: angle_def is_space_def)

lemma filter_angle_dropWhile: "filter angle (dropWhile is_space s) = filter angle s"
  by (induction s) (auto dest: angle_not_space)

lemma filter_angle_collapse: "filter angle (collapse s) = filter angle s"
proof (induction s rule: collapse.induct)
  case 1
  then show ?case by simp
next
  case (2 c cs)
  show ?case
  proof (cases "is_space c")
    case True
    then have "\<not> angle c" using angle_not_space by blast
    moreover have "\<not> angle (CHR '' '')" by (simp add: angle_def)
    ultimately show ?thesis using True 2 by (simp add: filter_angle_dropWhile)
  next
    case False
    with 2 show ?thesis by simp
  qed
qed

lemma filter_angle_trim: "filter angle (trim s) = filter angle s"
proof -
  have "filter angle (trim s) = rev (filter angle (dropWhile is_space (rev (dropWhile is_space s))))"
    by (simp add: trim_def rev_filter)
  also have "\<dots> = rev (filter angle (rev (dropWhile is_space s)))"
    by (simp add: filter_angle_dropWhile)
  also have "\<dots> = filter angle s"
    by (simp add: rev_filter filter_angle_dropWhile)
  finally show ?thesis .
qed

lemma htmlRegex_test_normalize: "htmlRegex_test (trim (collapse t)) = htmlRegex_test t"
  by (metis htmlRegex_test_filter filter_angle_trim filter_angle_collapse)

lemma text_error_normalize:
  assumes "trimmed t" and "text_error t = None"
  shows "text_error (trim (collapse t)) = None"
proof -
  from assms(2) have t: "3 \<le> length t" "length t \<le> 255" "\<not> htmlRegex_test t"
    by (auto simp: text_error_def split: if_splits)
  have c: "trim (collapse t) = collapse t"
    using collapse_trimmed(1) [OF assms(1)] by (rule trim_trimmed)
  have "3 \<le> length (collapse t)" using collapse_trimmed(2) [OF assms(1) t(1)] .
  moreover have "length (collapse t) \<le> 255" using length_collapse_le [of t] t(2) by simp
  moreover have "\<not> htmlRegex_test (collapse t)" using htmlRegex_test_normalize [of t] c t(3) by simp
  ultimately show ?thesis using c by (auto simp: text_error_def)
qed


lemma path_error_Nil: "path_error p e = {#} \<longleftrightarrow> e = None"
  by (cases e) (simp_all add: path_error_def)

lemma validate_Nil_text: "validate today d = {#} \<Longrightarrow> text_error (k_text d) = None"
  by (simp add: validate_def path_error_Nil)

lemma validate_text_error: "text_error (k_text d) \<noteq> None \<Longrightarrow> validate today d \<noteq> {#}"
  by (simp add: validate_def path_error_Nil)

lemma text_error_Nil: "text_error [] \<noteq> None"
  by (simp add: text_error_def)

lemma Task_save_Inr:
  assumes "Task_save today now oid taskData = Inr d"
  shows "validate today (new_Task now oid taskData) = {#}"
    and "pre_save now (new_Task now oid taskData) = Inr d"
  using assms by (auto simp: Task_save_def Let_def split: if_splits)

lemma Task_save_Inl:
  assumes "validate today (new_Task now oid taskData) \<noteq> {#}"
  shows "Task_save today now oid taskData
           = Inl (ValidationError (validate today (new_Task now oid taskData)))"
  using assms by (simp add: Task_save_def Let_def)

lemma pre_save_text:
  assumes "pre_save now d0 = Inr d"
  shows "k_text d = (if k_text d0 \<noteq> [] then trim (collapse (k_text d0)) else k_text d0)"
  using assms by (auto simp: pre_save_def Let_def split: if_splits)

lemma new_Task_text:
  "k_text (new_Task now oid taskData) = (case b_text taskData of None \<Rightarrow> [] | Some v \<Rightarrow> trim v)"
  by (simp add: new_Task_def)

lemma path_error_Some: "e = Some m \<Longrightarrow> (p, m) \<in># path_error p e"
  by (simp add: path_error_def)

lemma tags_errors_Some:
  assumes "n < length tgs" and "tag_error (tgs ! n) = Some m"
  shows "(''tags.'' @ String_js n, m) \<in># tags_errors tgs"
proof -
  from assms(1) have "(n, tgs ! n) \<in> set (enumerate 0 tgs)"
    by (simp add: in_set_enumerate_eq)
  moreover from assms(2) have "(''tags.'' @ String_js n, m)
      \<in># path_error (''tags.'' @ String_js n) (tag_error (tgs ! n))"
    by (simp add: path_error_def)
  ultimately show ?thesis
    unfolding tags_errors_def by (auto intro!: bexI [of _ "(n, tgs ! n)"])
qed

lemmas val_eval = new_Task_def validate_def text_only_def trim_def is_space_def text_error_def
  priority_error_def category_error_def dueDate_error_def tags_errors_def
  tag_error_def estimatedTime_error_def actualTime_error_def difficulty_error_def
  path_error_def empty_metadata_def or_else_def toLowerCase_def lower_char_def

lemma new_Task_dueDate:
  "new_Task now oid taskData = (new_Task now oid (taskData\<lparr> b_dueDate := None \<rparr>))
     \<lparr> k_dueDate := b_dueDate taskData \<rparr>"
  by (simp add: new_Task_def)

lemma validate_dueDate_ok:
  assumes "dueDate_error today due = None"
  shows "validate today (d\<lparr> k_dueDate := due \<rparr>) = validate today (d\<lparr> k_dueDate := None \<rparr>)"
  using assms by (simp add: validate_def dueDate_error_def path_error_def)

lemma pre_save_dueDate:
  "pre_save now (d\<lparr> k_dueDate := due \<rparr>) = map_sum id (\<lambda>x. x\<lparr> k_dueDate := due \<rparr>) (pre_save now d)"
  by (simp add: pre_save_def Let_def)

lemma Task_save_dueDate_ok:
  assumes ok: "dueDate_error today (b_dueDate taskData) = None"
    and base: "Task_save today now oid (taskData\<lparr> b_dueDate := None \<rparr>) = Inr d"
  shows "Task_save today now oid taskData = Inr (d\<lparr> k_dueDate := b_dueDate taskData \<rparr>)"
proof -
  let ?d0 = "new_Task now oid (taskData\<lparr> b_dueDate := None \<rparr>)"
  have n: "k_dueDate ?d0 = None" by (simp add: new_Task_def)
  then have same: "?d0\<lparr> k_dueDate := None \<rparr> = ?d0" by simp
  from base have v: "validate today ?d0 = {#}" and p: "pre_save now ?d0 = Inr d"
    by (auto simp: Task_save_def Let_def split: if_splits)
  have "validate today (?d0\<lparr> k_dueDate := b_dueDate taskData \<rparr>) = {#}"
    using validate_dueDate_ok [OF ok, of ?d0] same v by simp
  moreover have "pre_save now (?d0\<lparr> k_dueDate := b_dueDate taskData \<rparr>)
      = Inr (d\<lparr> k_dueDate := b_dueDate taskData \<rparr>)"
    using p by (simp add: pre_save_dueDate)
  ultimately show ?thesis
    using new_Task_dueDate [of now oid taskData] by (simp add: Task_save_def Let_def)
qed

lemma validate_dueDate_past:
  assumes "k_dueDate d = Some due" and "due < today"
  shows "(''dueDate'', ''Due date cannot be in the past'') \<in># validate today d"
  using assms by (simp add: validate_def dueDate_error_def path_error_def)

lemma update_errors_dueDate_past:
  assumes "p_dueDate u = Some (Some due)" and "due < today"
  shows "(''dueDate'', ''Due date cannot be in the past'') \<in># update_errors today (cast_update u)"
  using assms by (simp add: update_errors_def cast_update_def on_key_def dueDate_error_def path_error_def)

lemma priority_error_None: "priority_error v = None \<longleftrightarrow> v \<in> priorities"
  by (simp add: priority_error_def priorities_def)

lemma validate_Nil_priority: "validate today d = {#} \<Longrightarrow> priority_error (k_priority d) = None"
  by (simp add: validate_def path_error_Nil)

lemma pre_save_priority: "pre_save now d0 = Inr d \<Longrightarrow> k_priority d = k_priority d0"
  by (auto simp: pre_save_def Let_def split: if_splits)

lemma Task_save_priority:
  assumes "Task_save today now oid taskData = Inr d"
  shows "k_priority d \<in> priorities"
    and "b_priority taskData = None \<Longrightarrow> k_priority d = ''medium''"
proof -
  from Task_save_Inr [OF assms]
  have v: "validate today (new_Task now oid taskData) = {#}"
    and p: "pre_save now (new_Task now oid taskData) = Inr d" by simp_all
  from validate_Nil_priority [OF v] pre_save_priority [OF p]
  show "k_priority d \<in> priorities" by (simp add: priority_error_None)
  show "k_priority d = ''medium''" if "b_priority taskData = None"
    using that pre_save_priority [OF p] by (simp add: new_Task_def)
qed

lemma update_errors_Nil_priority:
  assumes "update_errors today u = {#}" and "p_priority u = Some v"
  shows "v \<in> priorities"
  using assms by (simp add: update_errors_def on_key_def path_error_Nil priority_error_None)

lemma set_splice1: "set (splice1 n xs) \<subseteq> set xs"
  unfolding splice1_def using set_take_subset [of n xs] set_drop_subset [of "Suc n" xs] by auto

lemma Task_findByIdAndUpdate_priorities:
  assumes inv: "\<forall>x \<in> set docs. k_priority x \<in> priorities"
  shows "\<forall>x \<in> set (snd (Task_findByIdAndUpdate today now True i u docs)). k_priority x \<in> priorities"
proof (cases "update_errors today (cast_update u) = {#}")
  case False
  with inv show ?thesis by (simp add: Task_findByIdAndUpdate_def Let_def)
next
  case True
  show ?thesis
  proof (cases "findIndex (\<lambda>d. k_id d = i) docs")
    case None
    with True inv show ?thesis by (simp add: Task_findByIdAndUpdate_def Let_def)
  next
    case (Some n)
    let ?d' = "apply_update now (docs ! n) (cast_update u)"
    from findIndex_Some [OF Some] have n: "n < length docs" by simp
    with inv have old: "k_priority (docs ! n) \<in> priorities" by simp
    have "k_priority ?d' \<in> priorities"
    proof (cases "p_priority (cast_update u)")
      case None
      with old show ?thesis by (simp add: apply_update_def or_else_def)
    next
      case (Some v)
      with update_errors_Nil_priority [OF True Some] show ?thesis
        by (simp add: apply_update_def or_else_def)
    qed
    moreover have "set (docs[n := ?d']) \<subseteq> insert ?d' (set docs)"
      by (rule set_update_subset_insert)
    ultimately have "\<forall>x \<in> set (docs[n := ?d']). k_priority x \<in> priorities"
      using inv by auto
    with True Some show ?thesis by (simp add: Task_findByIdAndUpdate_def Let_def)
  qed
qed

lemma of_char_digit_char: "d < 10 \<Longrightarrow> (of_char (digit_char d) :: nat) = 48 + d"
proof -
  assume "d < 10"
  then have "d = 0 \<or> d = 1 \<or> d = 2 \<or> d = 3 \<or> d = 4 \<or> d = 5 \<or> d = 6
      \<or> d = 7 \<or> d = 8 \<or> d = 9"
    by arith
  then show ?thesis
    by (elim disjE) (simp_all add: digit_char_def)
qed

lemma decimal_value_snoc:
  "decimal_value (ds @ [c]) = 10 * decimal_value ds + (of_char c - 48)"
  by (simp add: decimal_value_def)

lemma decimal_value_String_js: "decimal_value (String_js n) = n"
proof (induction n rule: String_js.induct)
  case (1 n)
  show ?case
  proof (cases "n < 10")
    case True
    then show ?thesis
      by (subst String_js.simps) (simp add: decimal_value_def of_char_digit_char)
  next
    case False
    with 1 have "decimal_value (String_js (n div 10)) = n div 10" by simp
    moreover have "(of_char (digit_char (n mod 10)) :: nat) = 48 + n mod 10"
      by (rule of_char_digit_char) simp
    ultimately show ?thesis using False
      by (subst String_js.simps) (simp add: decimal_value_snoc)
  qed
qed

lemma String_js_inject: "String_js a = String_js b \<Longrightarrow> a = b"
  by (metis decimal_value_String_js)


lemma unique_ids_initial: "unique_ids initial_store"
  by (simp add: unique_ids_def initial_store_def)

lemma unique_ids_create:
  assumes "unique_ids s"
  shows "unique_ids (snd (InMemoryTask_create now d s))"
proof -
  let ?new = "String_js (nextId s)"
  from assms have dist: "distinct (map t_uid (tasks s))"
    and old: "\<forall>t \<in> set (tasks s). t_id t = t_uid t \<and> t_uid t \<in> String_js ` set [0..<nextId s]"
    by (simp_all add: unique_ids_def list_all_iff)
  have fresh: "?new \<notin> t_uid ` set (tasks s)"
  proof
    assume "?new \<in> t_uid ` set (tasks s)"
    then obtain t where "t \<in> set (tasks s)" "t_uid t = ?new" by auto
    with old obtain k where "k < nextId s" "String_js k = ?new" by force
    then show False using String_js_inject by blast
  qed
  have grow: "String_js ` set [0..<nextId s] \<subseteq> String_js ` set [0..<nextId s + 1]"
    by auto
  have "?new \<in> String_js ` set [0..<nextId s + 1]" by simp
  with dist old fresh grow show ?thesis
    by (auto simp: unique_ids_def InMemoryTask_create_def Let_def list_all_iff)
qed

lemma distinct_map_splice1: "distinct (map f xs) \<Longrightarrow> distinct (map f (splice1 n xs))"
proof -
  assume d: "distinct (map f xs)"
  have "map f xs = map f (take n xs) @ map f (drop n xs)"
    by (metis append_take_drop_id map_append)
  with d have a: "distinct (map f (take n xs))" "distinct (map f (drop n xs))"
    "set (map f (take n xs)) \<inter> set (map f (drop n xs)) = {}"
    by (metis distinct_append)+
  have "set (drop (Suc n) xs) \<subseteq> set (drop n xs)"
    by (metis drop_Suc set_drop_subset drop_drop tl_drop set_drop_subset_set_drop Suc_n_not_le_n nat_le_linear)
  moreover have "distinct (map f (drop (Suc n) xs))"
    using d by (metis distinct_drop drop_map)
  ultimately show ?thesis
    using a unfolding splice1_def by (auto simp: distinct_map)
qed

lemma unique_ids_delete:
  assumes "unique_ids s"
  shows "unique_ids (snd (InMemoryTask_findByIdAndDelete i s))"
proof (cases "findIndex (has_id i) (tasks s)")
  case None
  with assms show ?thesis by (simp add: InMemoryTask_findByIdAndDelete_def)
next
  case (Some n)
  from assms have "distinct (map t_uid (splice1 n (tasks s)))"
    by (simp add: unique_ids_def distinct_map_splice1)
  moreover from assms have "list_all (\<lambda>t. t_id t = t_uid t
      \<and> t_uid t \<in> String_js ` set [0..<nextId s]) (splice1 n (tasks s))"
    using set_splice1 [of n "tasks s"] by (auto simp: unique_ids_def list_all_iff)
  ultimately show ?thesis
    using Some by (simp add: unique_ids_def InMemoryTask_findByIdAndDelete_def)
qed

lemma unique_ids_update:
  assumes "unique_ids s" and "p_uid p = None" and "p_id p = None"
  shows "unique_ids (snd (InMemoryTask_findByIdAndUpdate now i p opts s))"
proof (cases "findIndex (has_id i) (tasks s)")
  case None
  with assms(1) show ?thesis by (simp add: InMemoryTask_findByIdAndUpdate_def)
next
  case (Some n)
  let ?t = "spread now (tasks s ! n) p"
  from findIndex_Some [OF Some] have n: "n < length (tasks s)" by simp
  from assms(2,3) have ids: "t_uid ?t = t_uid (tasks s ! n)" "t_id ?t = t_id (tasks s ! n)"
    by (simp_all add: spread_def or_else_def)
  have "map t_uid ((tasks s)[n := ?t]) = (map t_uid (tasks s))[n := t_uid ?t]"
    by (rule map_update)
  also have "\<dots> = map t_uid (tasks s)"
    using n ids(1) by (simp add: list_update_same_conv)
  finally have m: "map t_uid ((tasks s)[n := ?t]) = map t_uid (tasks s)" .
  from assms(1) n have "t_id (tasks s ! n) = t_uid (tasks s ! n)
      \<and> t_uid (tasks s ! n) \<in> String_js ` set [0..<nextId s]"
    by (simp add: unique_ids_def list_all_length)
  with ids have new: "t_id ?t = t_uid ?t \<and> t_uid ?t \<in> String_js ` set [0..<nextId s]"
    by simp
  have "set ((tasks s)[n := ?t]) \<subseteq> insert ?t (set (tasks s))"
    by (rule set_update_subset_insert)
  with new assms(1) have "list_all (\<lambda>t. t_id t = t_uid t
      \<and> t_uid t \<in> String_js ` set [0..<nextId s]) ((tasks s)[n := ?t])"
    by (auto simp: unique_ids_def list_all_iff)
  with m assms(1) Some show ?thesis
    by (simp add: unique_ids_def InMemoryTask_findByIdAndUpdate_def Let_def)
qed

lemma unique_ids_one_match:
  assumes "unique_ids s"
  shows "length (filter (has_id i) (tasks s)) \<le> 1"
proof -
  from assms have "\<forall>t \<in> set (tasks s). has_id i t = (t_uid t = i)"
    by (auto simp: unique_ids_def list_all_iff has_id_def)
  then have "filter (has_id i) (tasks s) = filter (\<lambda>t. t_uid t = i) (tasks s)"
    by (simp cong: filter_cong)
  moreover from assms have "distinct (map t_uid (tasks s))"
    by (simp add: unique_ids_def)
  ultimately show ?thesis
    using distinct_filter_le1 [of t_uid "tasks s" i] by simp
qed

lemma createTask_memory_accepts:
  assumes "b_text taskData = Some raw" and "trim raw \<noteq> []"
  shows "r_status (fst (createTask_memory now taskData s)) = 201"
    and "map_option t_text (r_data (fst (createTask_memory now taskData s))) = Some (trim raw)"
    and "map_option t_dueDate (r_data (fst (createTask_memory now taskData s)))
           = Some (b_dueDate taskData)"
    and "map_option t_priority (r_data (fst (createTask_memory now taskData s)))
           = Some (or_str (b_priority taskData) ''medium'')"
proof -
  from assms(2) have "raw \<noteq> []" by (auto simp: trim_def)
  with assms show "r_status (fst (createTask_memory now taskData s)) = 201"
    and "map_option t_text (r_data (fst (createTask_memory now taskData s))) = Some (trim raw)"
    and "map_option t_dueDate (r_data (fst (createTask_memory now taskData s)))
           = Some (b_dueDate taskData)"
    and "map_option t_priority (r_data (fst (createTask_memory now taskData s)))
           = Some (or_str (b_priority taskData) ''medium'')"
    by (auto simp: createTask_memory_def InMemoryTask_create_def success_def or_str_def Let_def
        split: option.splits)
qed

lemma find_list_update:
  assumes "findIndex P xs = Some n" and "P y"
  shows "List.find P (xs[n := y]) = Some y"
  using assms
proof (induction xs arbitrary: n)
  case Nil
  then show ?case by simp
next
  case (Cons x xs)
  show ?case
  proof (cases "P x")
    case True
    with Cons.prems show ?thesis by simp
  next
    case False
    with Cons.prems obtain k where k: "findIndex P xs = Some k" "n = Suc k" by auto
    from Cons.IH [OF k(1) Cons.prems(2)] False k(2) show ?thesis by simp
  qed
qed

lemma mem_update_store:
  assumes "InMemoryTask_findById i s = Some t"
  shows "\<exists>n < length (tasks s). tasks s ! n = t
           \<and> snd (InMemoryTask_findByIdAndUpdate now i p opts s)
               = s\<lparr> tasks := (tasks s)[n := spread now t p] \<rparr>"
proof -
  from assms obtain k where k: "findIndex (has_id i) (tasks s) = Some k" "tasks s ! k = t"
    using find_findIndex [of "has_id i" "tasks s" t] by (auto simp: InMemoryTask_findById_def)
  from findIndex_Some [OF k(1)] have "k < length (tasks s)" by simp
  with k show ?thesis
    by (auto simp: InMemoryTask_findByIdAndUpdate_def Let_def)
qed

lemma updateTask_memory_snd:
  "snd (updateTask_memory development now i p s)
     = snd (InMemoryTask_findByIdAndUpdate now i p opts s)"
proof (cases "findIndex (has_id i) (tasks s)")
  case None
  then show ?thesis
    by (simp add: updateTask_memory_def InMemoryTask_findByIdAndUpdate_def options_new_def)
next
  case (Some n)
  then show ?thesis
    by (simp add: updateTask_memory_def InMemoryTask_findByIdAndUpdate_def Let_def
        spread_updatedAt)
qed

lemma update_lastModified_key:
  "Task_findByIdAndUpdate today now rv i (p\<lparr> p_lastModified := x \<rparr>) docs
     = Task_findByIdAndUpdate today now rv i p docs"
  by (simp add: Task_findByIdAndUpdate_def cast_update_def update_errors_def apply_update_def
      Let_def split: option.splits)

lemma doc_update_store:
  assumes "Task_findById i docs = Some d"
    and "fst (Task_findByIdAndUpdate today now rv i p docs) = Inr (Some d')"
  shows "Task_findById i (snd (Task_findByIdAndUpdate today now rv i p docs)) = Some d'"
    and "\<exists>n < length docs. docs ! n = d
           \<and> snd (Task_findByIdAndUpdate today now rv i p docs) = docs[n := d']"
proof -
  from assms(1) obtain k where k: "findIndex (\<lambda>d. k_id d = i) docs = Some k" "docs ! k = d"
    using find_findIndex [of "\<lambda>d. k_id d = i" docs d] by (auto simp: Task_findById_def)
  from findIndex_Some [OF k(1)] k(2) have len: "k < length docs" and id: "k_id d = i" by auto
  from assms(2) k have d': "d' = apply_update now d (cast_update p)"
    and s: "snd (Task_findByIdAndUpdate today now rv i p docs) = docs[k := d']"
    by (auto simp: Task_findByIdAndUpdate_def Let_def split: if_splits)
  from d' id have "k_id d' = i" by (simp add: apply_update_def)
  from find_list_update [OF k(1), of d'] this s
  show "Task_findById i (snd (Task_findByIdAndUpdate today now rv i p docs)) = Some d'"
    by (simp add: Task_findById_def)
  from len k(2) s
  show "\<exists>n < length docs. docs ! n = d
           \<and> snd (Task_findByIdAndUpdate today now rv i p docs) = docs[n := d']"
    by blast
qed

lemma doc_update_outcome:
  assumes "Task_findById i docs = Some d"
  shows "(\<exists>errs. errs \<noteq> {#}
            \<and> Task_findByIdAndUpdate today now rv i p docs = (Inl (ValidationError errs), docs))
         \<or> (\<exists>d'. fst (Task_findByIdAndUpdate today now rv i p docs) = Inr (Some d'))"
proof -
  from assms obtain k where k: "findIndex (\<lambda>d. k_id d = i) docs = Some k"
    using find_findIndex [of "\<lambda>d. k_id d = i" docs d] by (auto simp: Task_findById_def)
  then show ?thesis
    by (auto simp: Task_findByIdAndUpdate_def Let_def)
qed

lemma updateTask_accepted:
  assumes "isValid i" and "Task_findById i docs = Some d"
    and "fst (Task_findByIdAndUpdate today now True i p docs) = Inr (Some d')"
  shows "updateTask development isValid today now i p docs
           = (success 200 ''Task updated successfully'' (Some d') None,
              snd (Task_findByIdAndUpdate today now True i p docs))"
proof -
  from assms(3) obtain docs' where
    "Task_findByIdAndUpdate today now True i p docs = (Inr (Some d'), docs')"
    by (metis prod.collapse)
  with assms(1) show ?thesis
    by (simp add: updateTask_def update_lastModified_key)
qed

lemma round_half_even_error: "\<bar>of_int (round_half_even y) - y\<bar> \<le> 1 / 2"
proof -
  define f where "f = \<lfloor>y\<rfloor>"
  have f: "of_int f \<le> y" "y < of_int f + 1" unfolding f_def by linarith+
  consider "y - of_int f < 1 / 2" | "1 / 2 < y - of_int f" | "y - of_int f = 1 / 2"
    by linarith
  then show ?thesis
  proof cases
    case 1
    then have "round_half_even y = f" by (simp add: round_half_even_def f_def)
    with 1 f show ?thesis by simp
  next
    case 2
    then have "round_half_even y = f + 1" by (simp add: round_half_even_def f_def)
    with 2 f show ?thesis by simp
  next
    case 3
    then have "round_half_even y = f \<or> round_half_even y = f + 1"
      by (simp add: round_half_even_def f_def Let_def)
    with 3 f show ?thesis by auto
  qed
qed

lemma floorlog_pos: "0 < n \<Longrightarrow> 0 < floorlog 2 n"
  using floorlog_bounds [of n 2] by (cases "floorlog 2 n") auto

lemma binary_exponent_le:
  assumes "0 < x"
  shows "2 powi binary_exponent x \<le> x"
proof (cases "1 \<le> x")
  case True
  define n where "n = nat \<lfloor>x\<rfloor>"
  define j where "j = floorlog 2 n"
  from True have fl: "1 \<le> \<lfloor>x\<rfloor>" by simp
  then have n: "0 < n" by (simp add: n_def)
  from floorlog_bounds [OF n, of 2] have b: "2 ^ (j - 1) \<le> n" by (simp add: j_def)
  from floorlog_pos [OF n] have "0 < j" by (simp add: j_def)
  then have "int (j - 1) = int j - 1" by linarith
  moreover have "binary_exponent x = int j - 1"
    using True by (simp add: binary_exponent_def j_def n_def)
  ultimately have "binary_exponent x = int (j - 1)" by linarith
  then have "2 powi binary_exponent x = (2::rat) powi int (j - 1)" by (simp only:)
  also have "\<dots> = 2 ^ (j - 1)" by (rule power_int_of_nat)
  also have "\<dots> = of_nat (2 ^ (j - 1))" by simp
  also have "\<dots> \<le> of_nat n" using b by (simp only: of_nat_le_iff)
  also have "\<dots> = of_int \<lfloor>x\<rfloor>" using fl by (simp add: n_def)
  also have "\<dots> \<le> x" by simp
  finally show ?thesis .
next
  case False
  define c where "c = \<lceil>1 / x\<rceil>"
  define m where "m = nat (c - 1)"
  define j where "j = floorlog 2 m"
  from False assms have "1 < 1 / x" by simp
  then have c1: "1 < c" by (simp add: c_def less_ceiling_iff)
  then have m: "0 < m" by (simp add: m_def)
  from floorlog_bounds [OF m, of 2] have "m < 2 ^ j" by (simp add: j_def)
  then have "int m < int (2 ^ j)" by (simp only: of_nat_less_iff)
  then have "int m < 2 ^ j" by simp
  with c1 have "c \<le> 2 ^ j" by (simp add: m_def)
  then have "(of_int c :: rat) \<le> of_int (2 ^ j)" by (simp only: of_int_le_iff)
  then have cj: "(of_int c :: rat) \<le> 2 ^ j" by simp
  have "1 / x \<le> of_int c" by (simp add: c_def)
  from this cj have "1 / x \<le> 2 ^ j" by (rule order_trans)
  with assms have "1 \<le> 2 ^ j * x" by (simp add: field_simps)
  then have le: "1 / 2 ^ j \<le> x" by (simp add: field_simps)
  have "binary_exponent x = - int j"
    using False by (simp add: binary_exponent_def j_def m_def c_def)
  then have "2 powi binary_exponent x = 1 / (2::rat) powi int j"
    by (simp only: power_int_minus_divide)
  also have "\<dots> = 1 / 2 ^ j" by (simp only: power_int_of_nat)
  finally show ?thesis using le by simp
qed

lemma to_double_error:
  assumes "0 < x"
  shows "\<bar>to_double x - x\<bar> \<le> x / 2 ^ 53"
proof -
  define e where "e = binary_exponent x"
  define s where "s = (2::rat) powi (52 - e)"
  have s: "0 < s" by (simp add: s_def)
  have inv: "(2::rat) powi (e - 52) = 1 / s"
    unfolding s_def using power_int_minus_divide [of "2::rat" "52 - e"] by simp
  have td: "to_double x = of_int (round_half_even (x * s)) / s"
    using assms by (simp add: to_double_def Let_def e_def [symmetric] s_def [symmetric] inv)
  have "to_double x - x = (of_int (round_half_even (x * s)) - x * s) / s"
    using s by (simp add: td field_simps)
  then have "\<bar>to_double x - x\<bar> = \<bar>of_int (round_half_even (x * s)) - x * s\<bar> / s"
    using s by (simp add: abs_divide)
  also have "\<dots> \<le> (1 / 2) / s"
    using round_half_even_error [of "x * s"] s by (intro divide_right_mono) simp_all
  also have "(1 / 2) / s = 2 powi e / 2 ^ 53"
  proof -
    have "s = 2 powi 52 / 2 powi e"
      unfolding s_def by (rule power_int_diff) simp
    then show ?thesis by simp
  qed
  also have "\<dots> \<le> x / 2 ^ 53"
    using binary_exponent_le [OF assms] by (simp add: e_def divide_right_mono)
  finally show ?thesis .
qed

lemma rounding_twice:
  fixes q :: rat
  assumes "\<bar>q' - q\<bar> \<le> d" "\<bar>r - q' * 100\<bar> \<le> q' * 100 * u" "0 \<le> d" "0 \<le> u"
  shows "\<bar>r - q * 100\<bar> \<le> 100 * d + (q + d) * 100 * u"
proof -
  from assms(1) have "q' \<le> q + d" by linarith
  with assms(4) have "q' * 100 * u \<le> (q + d) * 100 * u"
    by (intro mult_right_mono) simp_all
  with assms(1,2) show ?thesis by linarith
qed

lemma rounding_twice_bound:
  fixes q :: rat
  assumes "0 < q"
  shows "100 * (q / 2 ^ 53) + (q + q / 2 ^ 53) * 100 * (1 / 2 ^ 53) \<le> q * 100 / 2 ^ 51"
proof -
  have "q / 2 ^ 53 \<le> q" using assms by (simp add: field_simps)
  then have "(q + q / 2 ^ 53) * 100 * (1 / 2 ^ 53) \<le> (q + q) * 100 * (1 / 2 ^ 53)"
    by (intro mult_right_mono) simp_all
  also have "\<dots> = 200 * (q / 2 ^ 53)" by simp
  finally have "100 * (q / 2 ^ 53) + (q + q / 2 ^ 53) * 100 * (1 / 2 ^ 53) \<le> 300 * (q / 2 ^ 53)"
    by simp
  also have "\<dots> \<le> 400 * (q / 2 ^ 53)" using assms by simp
  also have "\<dots> = q * 100 / 2 ^ 51" by simp
  finally show ?thesis .
qed

lemma to_double_pos:
  assumes "0 < x"
  shows "0 < to_double x"
proof -
  have "x / 2 ^ 53 < x" using assms by (simp add: field_simps)
  with to_double_error [OF assms] show ?thesis by linarith
qed

lemma completionRate_error:
  assumes "0 < q"
  shows "\<bar>to_double (to_double q * 100) - q * 100\<bar> \<le> q * 100 / 2 ^ 51"
proof -
  let ?q' = "to_double q"
  let ?r = "to_double (?q' * 100)"
  from to_double_error [OF assms] have a: "\<bar>?q' - q\<bar> \<le> q / 2 ^ 53" .
  from to_double_pos [OF assms] have "0 < ?q' * 100" by simp
  from to_double_error [OF this] have b: "\<bar>?r - ?q' * 100\<bar> \<le> ?q' * 100 * (1 / 2 ^ 53)"
    by simp
  have d: "0 \<le> q / 2 ^ 53" and u: "(0::rat) \<le> 1 / 2 ^ 53"
    using assms by simp_all
  have "\<bar>?r - q * 100\<bar> \<le> 100 * (q / 2 ^ 53) + (q + q / 2 ^ 53) * 100 * (1 / 2 ^ 53)"
    using a b d u by (rule rounding_twice)
  also have "\<dots> \<le> q * 100 / 2 ^ 51"
    using assms by (rule rounding_twice_bound)
  finally show ?thesis .
qed

lemma completionRate_error_le:
  assumes "0 \<le> q"
  shows "\<bar>to_double (to_double q * 100) - q * 100\<bar> \<le> q * 100 / 2 ^ 51"
proof (cases "q = 0")
  case True
  then show ?thesis by (simp add: to_double_def)
next
  case False
  with assms have "0 < q" by simp
  then show ?thesis by (rule completionRate_error)
qed

lemma overdue_count:
  assumes "\<forall>d \<in> set docs. k_completed d \<or> k_dueDate d \<noteq> None"
  shows "filter (\<lambda>d. dollar_lt (k_dueDate d) now \<and> k_completed d = False) docs
           = filter (isOverdue now) docs"
proof (rule filter_cong [OF refl])
  fix d assume "d \<in> set docs"
  with assms have "k_completed d \<or> k_dueDate d \<noteq> None" by blast
  then show "(dollar_lt (k_dueDate d) now \<and> k_completed d = False) = isOverdue now d"
    by (auto simp: dollar_lt_def isOverdue_def split: option.splits)
qed

lemma Task_getStatistics_overdue:
  "st_overdue (Task_getStatistics now docs)
     = Some (length (filter (\<lambda>d. dollar_lt (k_dueDate d) now \<and> k_completed d = False) docs))"
  by (simp add: Task_getStatistics_def Let_def)

lemma Task_getStatistics_completionRate:
  "st_completionRate (Task_getStatistics now docs)
     = Some (to_double (to_double
         (of_nat (length (filter k_completed docs)) / of_nat (length docs)) * 100))"
  by (simp add: Task_getStatistics_def Let_def to_double_def)


section \<open>Choice of the storage model (claim C1)\<close>

text \<open>
  Claim C1.  With the connection in state 0 (disconnected) \<open>getTaskModel\<close> gives the
  in-memory model, and the simplified controller uses it, but every handler of
  \<open>taskController.js\<close> still runs on the \<open>Task\<close> model.
\<close>

theorem taskController_model_disconnected:
  "\<not> isMongoAvailable 0
   \<and> getTaskModel 0 = InMemoryTask
   \<and> simplified_model ListTasks 0 = InMemoryTask
   \<and> taskController_model ListTasks 0 = Task
   \<and> taskController_model GetTaskById 0 = Task
   \<and> taskController_model CreateTask 0 = Task
   \<and> taskController_model UpdateTask 0 = Task
   \<and> taskController_model DeleteTask 0 = Task
   \<and> taskController_model SearchTasks 0 = Task
   \<and> taskController_model TaskStatistics 0 = Task"
  by (simp add: isMongoAvailable_def getTaskModel_def)

text \<open>The simplified controller serves every operation from the in-memory model whenever
  the connection is not established.\<close>

lemma simplified_model_fallback:
  assumes "\<not> isMongoAvailable readyState"
  shows "simplified_model operation readyState = InMemoryTask"
  using assms by (cases operation) (simp_all add: getTaskModel_def)

lemma simplified_model_fallback_witness:
  "\<not> isMongoAvailable 2 \<and> simplified_model DeleteTask 2 = InMemoryTask"
proof -
  have h: "\<not> isMongoAvailable 2" by (simp add: isMongoAvailable_def)
  from h simplified_model_fallback [OF h, of DeleteTask] show ?thesis by simp
qed


section \<open>Timestamps across an update (claim C2)\<close>

text \<open>
  Claim C2, in the form the code satisfies.
  An update of an existing task sets \<open>lastModified\<close> to the time of the update, which is at
  least the previous value when the clock has not gone back, and the updated task takes
  the place of the old one in the store, which is otherwise unchanged.  In the in-memory
  store the updated task is the stored one with the keys of the payload spread over it, so
  \<open>createdAt\<close> is unchanged when the payload has no key \<open>createdAt\<close>.  In the Task model an
  update of an existing task either fails validation, and then the collection is
  unchanged, or returns the updated document; \<open>createdAt\<close> is unchanged by every update,
  also by one whose payload carries \<open>createdAt\<close>; and \<open>updateTask\<close> of \<open>taskController.js\<close>
  answers 200 with the updated document.
\<close>

theorem update_timestamps:
  "(InMemoryTask_findById i s = Some t \<longrightarrow>
      fst (InMemoryTask_findByIdAndUpdate now i p opts s) = Inr (Some (spread now t p))
      \<and> (\<exists>n < length (tasks s). tasks s ! n = t
            \<and> snd (InMemoryTask_findByIdAndUpdate now i p opts s)
                = s\<lparr> tasks := (tasks s)[n := spread now t p] \<rparr>)
      \<and> spread now t p \<in> set (tasks (snd (InMemoryTask_findByIdAndUpdate now i p opts s)))
      \<and> r_data (fst (updateTask_memory development now i p s)) = Some (spread now t p)
      \<and> snd (updateTask_memory development now i p s)
          = snd (InMemoryTask_findByIdAndUpdate now i p opts s)
      \<and> t_lastModified (spread now t p) = now
      \<and> (t_lastModified t \<le> now \<longrightarrow> t_lastModified t \<le> t_lastModified (spread now t p))
      \<and> (p_createdAt p = None \<longrightarrow> t_createdAt (spread now t p) = t_createdAt t))
   \<and> (Task_findById i docs = Some d
        \<and> fst (Task_findByIdAndUpdate today now runValidators i p docs) = Inr (Some d') \<longrightarrow>
      Task_findById i (snd (Task_findByIdAndUpdate today now runValidators i p docs)) = Some d'
      \<and> (\<exists>n < length docs. docs ! n = d
            \<and> snd (Task_findByIdAndUpdate today now runValidators i p docs) = docs[n := d'])
      \<and> k_createdAt d' = k_createdAt d
      \<and> k_lastModified d' = now
      \<and> (k_lastModified d \<le> now \<longrightarrow> k_lastModified d \<le> k_lastModified d'))
   \<and> (Task_findById i docs = Some d \<longrightarrow>
      (\<exists>errs. errs \<noteq> {#}
          \<and> Task_findByIdAndUpdate today now runValidators i p docs
              = (Inl (ValidationError errs), docs))
      \<or> (\<exists>d'. fst (Task_findByIdAndUpdate today now runValidators i p docs) = Inr (Some d')))
   \<and> (isValid i \<and> Task_findById i docs = Some d
        \<and> fst (Task_findByIdAndUpdate today now True i p docs) = Inr (Some d') \<longrightarrow>
      updateTask development isValid today now i p docs
        = (success 200 ''Task updated successfully'' (Some d') None,
           snd (Task_findByIdAndUpdate today now True i p docs)))"
proof -
  have mem: "fst (InMemoryTask_findByIdAndUpdate now i p opts s) = Inr (Some (spread now t p))
      \<and> (\<exists>n < length (tasks s). tasks s ! n = t
            \<and> snd (InMemoryTask_findByIdAndUpdate now i p opts s)
                = s\<lparr> tasks := (tasks s)[n := spread now t p] \<rparr>)
      \<and> spread now t p \<in> set (tasks (snd (InMemoryTask_findByIdAndUpdate now i p opts s)))
      \<and> r_data (fst (updateTask_memory development now i p s)) = Some (spread now t p)"
    if found: "InMemoryTask_findById i s = Some t"
  proof -
    have "fst (InMemoryTask_findByIdAndUpdate now i (p\<lparr> p_updatedAt := Some now \<rparr>)
             (Some \<lparr> o_new = Some True \<rparr>) s) = Inr (Some (spread now t p))"
      using mem_update_found [OF found] by (simp add: spread_updatedAt)
    then obtain s' where "InMemoryTask_findByIdAndUpdate now i (p\<lparr> p_updatedAt := Some now \<rparr>)
             (Some \<lparr> o_new = Some True \<rparr>) s = (Inr (Some (spread now t p)), s')"
      by (metis prod.collapse)
    then have "r_data (fst (updateTask_memory development now i p s)) = Some (spread now t p)"
      by (simp add: updateTask_memory_def success_def)
    with mem_update_found [OF found] mem_update_stored [OF found] mem_update_store [OF found]
    show ?thesis by simp
  qed
  have stamps: "t_lastModified (spread now t p) = now"
    "p_createdAt p = None \<Longrightarrow> t_createdAt (spread now t p) = t_createdAt t"
    by (simp_all add: spread_def or_else_def)
  have db: "k_createdAt d' = k_createdAt d \<and> k_lastModified d' = now"
    if "Task_findById i docs = Some d"
      "fst (Task_findByIdAndUpdate today now runValidators i p docs) = Inr (Some d')"
    using doc_update_found [OF that]
    by (simp add: apply_update_def cast_update_def or_else_def)
  have g1: "InMemoryTask_findById i s = Some t \<longrightarrow>
      fst (InMemoryTask_findByIdAndUpdate now i p opts s) = Inr (Some (spread now t p))
      \<and> (\<exists>n < length (tasks s). tasks s ! n = t
            \<and> snd (InMemoryTask_findByIdAndUpdate now i p opts s)
                = s\<lparr> tasks := (tasks s)[n := spread now t p] \<rparr>)
      \<and> spread now t p \<in> set (tasks (snd (InMemoryTask_findByIdAndUpdate now i p opts s)))
      \<and> r_data (fst (updateTask_memory development now i p s)) = Some (spread now t p)
      \<and> snd (updateTask_memory development now i p s)
          = snd (InMemoryTask_findByIdAndUpdate now i p opts s)
      \<and> t_lastModified (spread now t p) = now
      \<and> (t_lastModified t \<le> now \<longrightarrow> t_lastModified t \<le> t_lastModified (spread now t p))
      \<and> (p_createdAt p = None \<longrightarrow> t_createdAt (spread now t p) = t_createdAt t)"
    using mem stamps updateTask_memory_snd [of development now i p s opts] by simp
  have g2: "Task_findById i docs = Some d
        \<and> fst (Task_findByIdAndUpdate today now runValidators i p docs) = Inr (Some d') \<longrightarrow>
      Task_findById i (snd (Task_findByIdAndUpdate today now runValidators i p docs)) = Some d'
      \<and> (\<exists>n < length docs. docs ! n = d
            \<and> snd (Task_findByIdAndUpdate today now runValidators i p docs) = docs[n := d'])
      \<and> k_createdAt d' = k_createdAt d
      \<and> k_lastModified d' = now
      \<and> (k_lastModified d \<le> now \<longrightarrow> k_lastModified d \<le> k_lastModified d')"
    using db doc_update_store [of i docs d today now runValidators p d'] by simp
  have g3: "Task_findById i docs = Some d \<longrightarrow>
      (\<exists>errs. errs \<noteq> {#}
          \<and> Task_findByIdAndUpdate today now runValidators i p docs
              = (Inl (ValidationError errs), docs))
      \<or> (\<exists>d'. fst (Task_findByIdAndUpdate today now runValidators i p docs) = Inr (Some d'))"
    by (rule impI) (rule doc_update_outcome)
  have g4: "isValid i \<and> Task_findById i docs = Some d
        \<and> fst (Task_findByIdAndUpdate today now True i p docs) = Inr (Some d') \<longrightarrow>
      updateTask development isValid today now i p docs
        = (success 200 ''Task updated successfully'' (Some d') None,
           snd (Task_findByIdAndUpdate today now True i p docs))"
    using updateTask_accepted [of isValid i docs d today now p d' development] by blast
  from g1 g2 g3 g4 show ?thesis by (intro conjI)
qed

theorem update_timestamps_witness:
  "InMemoryTask_findById ''1'' (initializeSampleData 1000 initial_store) \<noteq> None
   \<and> map_option t_createdAt (r_data (fst (updateTask_memory False 2000 ''1''
         (empty_patch\<lparr> p_completed := Some True \<rparr>) (initializeSampleData 1000 initial_store))))
       = Some 1000
   \<and> map_option t_lastModified (r_data (fst (updateTask_memory False 2000 ''1''
         (empty_patch\<lparr> p_completed := Some True \<rparr>) (initializeSampleData 1000 initial_store))))
       = Some 2000
   \<and> (\<exists>d'. fst (Task_findByIdAndUpdate 0 2000 True ''a1''
                (empty_patch\<lparr> p_createdAt := Some 5, p_completed := Some True \<rparr>)
                (snd (createTask False 0 1000 ''a1'' (text_only ''Write the report'') [])))
              = Inr (Some d')
            \<and> Task_findById ''a1'' (snd (Task_findByIdAndUpdate 0 2000 True ''a1''
                (empty_patch\<lparr> p_createdAt := Some 5, p_completed := Some True \<rparr>)
                (snd (createTask False 0 1000 ''a1'' (text_only ''Write the report'') []))))
              = Some d'
            \<and> k_createdAt d' = 1000 \<and> k_lastModified d' = 2000)"
proof -
  let ?S = "initializeSampleData 1000 initial_store"
  let ?p = "empty_patch\<lparr> p_completed := Some True \<rparr>"
  let ?t = "the (InMemoryTask_findById ''1'' ?S)"
  let ?D = "snd (createTask False 0 1000 ''a1'' (text_only ''Write the report'') [])"
  let ?q = "empty_patch\<lparr> p_createdAt := Some 5, p_completed := Some True \<rparr>"
  let ?d = "the (Task_findById ''a1'' ?D)"
  have h: "InMemoryTask_findById ''1'' ?S = Some ?t"
    by (simp add: mem_eval)
  have t: "t_createdAt ?t = 1000"
    by (simp add: mem_eval)
  have p: "p_createdAt ?p = None"
    by (simp add: empty_patch_def)
  have mem: "r_data (fst (updateTask_memory False 2000 ''1'' ?p ?S)) = Some (spread 2000 ?t ?p)"
    "t_lastModified (spread 2000 ?t ?p) = 2000"
    "t_createdAt (spread 2000 ?t ?p) = t_createdAt ?t"
    using h p update_timestamps [where i = "''1''" and s = ?S and t = ?t and now = 2000 and p = ?p
        and development = False] by blast+
  have k: "Task_findById ''a1'' ?D = Some ?d"
    by (simp add: doc_eval upd_eval)
  have c: "k_createdAt ?d = 1000"
    by (simp add: doc_eval upd_eval)
  have "\<exists>d'. fst (Task_findByIdAndUpdate 0 2000 True ''a1'' ?q ?D) = Inr (Some d')"
    by (simp add: doc_eval upd_eval empty_patch_def)
  then obtain d' where d': "fst (Task_findByIdAndUpdate 0 2000 True ''a1'' ?q ?D) = Inr (Some d')"
    by blast
  from k d' have "Task_findById ''a1'' (snd (Task_findByIdAndUpdate 0 2000 True ''a1'' ?q ?D)) = Some d'
      \<and> k_createdAt d' = k_createdAt ?d \<and> k_lastModified d' = 2000"
    using update_timestamps [where i = "''a1''" and docs = ?D and d = ?d and d' = d'
        and now = 2000 and p = ?q and today = 0 and runValidators = True] by blast
  with c d' have db: "\<exists>d'. fst (Task_findByIdAndUpdate 0 2000 True ''a1'' ?q ?D) = Inr (Some d')
      \<and> Task_findById ''a1'' (snd (Task_findByIdAndUpdate 0 2000 True ''a1'' ?q ?D)) = Some d'
      \<and> k_createdAt d' = 1000 \<and> k_lastModified d' = 2000"
    by auto
  have h0: "InMemoryTask_findById ''1'' ?S \<noteq> None"
    using h by (metis option.distinct(1))
  have c1: "map_option t_createdAt (r_data (fst (updateTask_memory False 2000 ''1'' ?p ?S)))
      = Some 1000"
    using mem t by simp
  have c2: "map_option t_lastModified (r_data (fst (updateTask_memory False 2000 ''1'' ?p ?S)))
      = Some 2000"
    using mem by simp
  from h0 c1 c2 db show ?thesis by (intro conjI)
qed

text \<open>
  In the in-memory store a payload with the key \<open>createdAt\<close> replaces the stored value:
  the first sample task, created at time 1000, has \<open>createdAt = 0\<close> after the update.
\<close>

theorem update_timestamps_counterexample:
  "map_option t_createdAt (InMemoryTask_findById ''1'' (initializeSampleData 1000 initial_store))
     = Some 1000
   \<and> map_option t_createdAt (r_data (fst (updateTask_memory False 2000 ''1''
         (empty_patch\<lparr> p_createdAt := Some 0 \<rparr>) (initializeSampleData 1000 initial_store))))
       = Some 0
   \<and> map_option t_createdAt (InMemoryTask_findById ''1'' (snd (updateTask_memory False 2000 ''1''
         (empty_patch\<lparr> p_createdAt := Some 0 \<rparr>) (initializeSampleData 1000 initial_store))))
       = Some 0"
  by (simp add: mem_eval)


section \<open>Pagination metadata (claim C3)\<close>

text \<open>
  Claim C3, in the form the code satisfies.
  For a list request with page \<open>p\<close> and a limit \<open>L\<close> of at least
  1, \<open>getAllTasks\<close> of \<open>taskController.js\<close> answers with \<open>totalItems = totalCount\<close> (the
  count of the whole matching set), \<open>totalPages = ceil(totalCount / L)\<close>,
  \<open>currentPage = p\<close>, \<open>itemsPerPage = L\<close>, \<open>hasNextPage = (p < totalPages)\<close> and
  \<open>hasPrevPage = (p > 1)\<close>.  The simplified controller, which alone serves the in-memory
  store, reports \<open>currentPage = p\<close> and \<open>itemsPerPage = L\<close> (defaults 1 and 50) and
  writes none of \<open>totalPages\<close>, \<open>hasNextPage\<close> and \<open>hasPrevPage\<close>.
\<close>

theorem pagination_metadata:
  assumes "0 < limit"
  shows "getAllTasks_pagination page limit totalCount =
           \<lparr> currentPage = page,
             totalPages = Some (Num \<lceil>real totalCount / real_of_int limit\<rceil>),
             totalItems = int totalCount,
             itemsPerPage = limit,
             hasNextPage = Some (page < \<lceil>real totalCount / real_of_int limit\<rceil>),
             hasPrevPage = Some (page > 1) \<rparr>
         \<and> r_pagination (getAllTasks_response page limit found totalCount)
             = Some (getAllTasks_pagination page limit totalCount)
         \<and> map_option currentPage (r_pagination (getAllTasks_memory q s)) = Some (or_else (lq_page q) 1)
         \<and> map_option itemsPerPage (r_pagination (getAllTasks_memory q s)) = Some (or_else (lq_limit q) 50)
         \<and> map_option totalPages (r_pagination (getAllTasks_memory q s)) = Some None
         \<and> map_option hasNextPage (r_pagination (getAllTasks_memory q s)) = Some None
         \<and> map_option hasPrevPage (r_pagination (getAllTasks_memory q s)) = Some None"
proof -
  have "ceil_div (int totalCount) limit = Num \<lceil>real totalCount / real_of_int limit\<rceil>"
    using ceil_div_pos [OF assms, of "int totalCount"] by simp
  then have "getAllTasks_pagination page limit totalCount =
           \<lparr> currentPage = page,
             totalPages = Some (Num \<lceil>real totalCount / real_of_int limit\<rceil>),
             totalItems = int totalCount,
             itemsPerPage = limit,
             hasNextPage = Some (page < \<lceil>real totalCount / real_of_int limit\<rceil>),
             hasPrevPage = Some (page > 1) \<rparr>"
    by (simp add: getAllTasks_pagination_def num_less_def Let_def)
  moreover have "r_pagination (getAllTasks_response page limit found totalCount)
             = Some (getAllTasks_pagination page limit totalCount)"
    by (simp add: getAllTasks_response_def)
  moreover have "map_option currentPage (r_pagination (getAllTasks_memory q s)) = Some (or_else (lq_page q) 1)"
    "map_option itemsPerPage (r_pagination (getAllTasks_memory q s)) = Some (or_else (lq_limit q) 50)"
    "map_option totalPages (r_pagination (getAllTasks_memory q s)) = Some None"
    "map_option hasNextPage (r_pagination (getAllTasks_memory q s)) = Some None"
    "map_option hasPrevPage (r_pagination (getAllTasks_memory q s)) = Some None"
    by (simp_all add: getAllTasks_memory_def Let_def)
  ultimately show ?thesis by simp
qed

theorem pagination_metadata_witness:
  "getAllTasks_pagination 2 10 25 =
     \<lparr> currentPage = 2, totalPages = Some (Num 3), totalItems = 25, itemsPerPage = 10,
       hasNextPage = Some True, hasPrevPage = Some True \<rparr>
   \<and> getAllTasks_pagination 3 10 25 =
     \<lparr> currentPage = 3, totalPages = Some (Num 3), totalItems = 25, itemsPerPage = 10,
       hasNextPage = Some False, hasPrevPage = Some True \<rparr>"
proof -
  have h: "(0::int) < 10" by simp
  have c: "\<lceil>real 25 / real_of_int 10\<rceil> = 3" by (simp add: ceiling_eq_iff)
  show ?thesis
    using c pagination_metadata [OF h, of 2 25] pagination_metadata [OF h, of 3 25]
    by simp
qed

text \<open>
  On the in-memory store the simplified controller writes neither \<open>totalPages\<close> nor
  \<open>hasNextPage\<close>, and its \<open>totalItems\<close> is the length of the returned page: with the five
  sample tasks, page 1 and limit 2, it is 2 while 5 tasks match.
\<close>

theorem pagination_metadata_counterexample:
  "InMemoryTask_countDocuments empty_query (initializeSampleData 1000 initial_store) = 5
   \<and> map_option totalItems (r_pagination (getAllTasks_memory (page_query 1 2)
         (initializeSampleData 1000 initial_store))) = Some 2
   \<and> map_option totalPages (r_pagination (getAllTasks_memory (page_query 1 2)
         (initializeSampleData 1000 initial_store))) = Some None
   \<and> map_option hasNextPage (r_pagination (getAllTasks_memory (page_query 1 2)
         (initializeSampleData 1000 initial_store))) = Some None"
  by code_simp


section \<open>Statistics (claim C4)\<close>

text \<open>
  Claim C4, in the form the code satisfies.
  Over the whole task set, both models give \<open>total\<close> (the number of tasks), \<open>completed\<close>
  (the number with \<open>completed\<close> true) and \<open>active = total - completed\<close>.
  \<open>Task.getStatistics\<close> gives in addition \<open>overdue\<close>, which is the number of tasks that are
  not completed and whose due date is strictly before the current date whenever every
  task that is not completed has a due date, and \<open>completionRate\<close>, which is 0 when there
  is no task and otherwise the double nearest to \<open>completed / total\<close> multiplied by 100 in
  double precision: it differs from \<open>completed / total * 100\<close> by no more than that value
  divided by \<open>2 ^ 51\<close>.  The statistics of the in-memory store have neither \<open>overdue\<close> nor
  \<open>completionRate\<close>.
\<close>

theorem statistics_fields:
  "st_total (InMemoryTask_aggregate s) = length (tasks s)
   \<and> st_completed (InMemoryTask_aggregate s) = length (filter t_completed (tasks s))
   \<and> st_active (InMemoryTask_aggregate s)
       = st_total (InMemoryTask_aggregate s) - st_completed (InMemoryTask_aggregate s)
   \<and> st_overdue (InMemoryTask_aggregate s) = None
   \<and> st_completionRate (InMemoryTask_aggregate s) = None
   \<and> r_data (getTaskStatistics_memory s) = Some (InMemoryTask_aggregate s)
   \<and> st_total (Task_getStatistics now docs) = length docs
   \<and> st_completed (Task_getStatistics now docs) = length (filter k_completed docs)
   \<and> st_active (Task_getStatistics now docs)
       = st_total (Task_getStatistics now docs) - st_completed (Task_getStatistics now docs)
   \<and> ((\<forall>d \<in> set docs. k_completed d \<or> k_dueDate d \<noteq> None) \<longrightarrow>
        st_overdue (Task_getStatistics now docs) = Some (length (filter (isOverdue now) docs)))
   \<and> (docs = [] \<longrightarrow> st_completionRate (Task_getStatistics now docs) = Some 0)
   \<and> (\<exists>r. st_completionRate (Task_getStatistics now docs) = Some r
          \<and> \<bar>r - of_nat (length (filter k_completed docs)) / of_nat (length docs) * 100\<bar>
              \<le> of_nat (length (filter k_completed docs)) / of_nat (length docs) * 100 / 2 ^ 51)"
proof -
  have mem: "st_active (InMemoryTask_aggregate s)
       = st_total (InMemoryTask_aggregate s) - st_completed (InMemoryTask_aggregate s)"
    by (simp add: InMemoryTask_aggregate_def length_filter_not)
  have db: "st_active (Task_getStatistics now docs)
       = st_total (Task_getStatistics now docs) - st_completed (Task_getStatistics now docs)"
    by (simp add: Task_getStatistics_def Let_def length_filter_not)
  have rest: "st_total (InMemoryTask_aggregate s) = length (tasks s)"
    "st_completed (InMemoryTask_aggregate s) = length (filter t_completed (tasks s))"
    "st_overdue (InMemoryTask_aggregate s) = None"
    "st_completionRate (InMemoryTask_aggregate s) = None"
    "r_data (getTaskStatistics_memory s) = Some (InMemoryTask_aggregate s)"
    by (simp_all add: InMemoryTask_aggregate_def getTaskStatistics_memory_def success_def)
  have rest_db: "st_total (Task_getStatistics now docs) = length docs"
    "st_completed (Task_getStatistics now docs) = length (filter k_completed docs)"
    by (simp_all add: Task_getStatistics_def Let_def)
  have overdue: "(\<forall>d \<in> set docs. k_completed d \<or> k_dueDate d \<noteq> None) \<longrightarrow>
      st_overdue (Task_getStatistics now docs) = Some (length (filter (isOverdue now) docs))"
    using overdue_count [of docs now] by (simp add: Task_getStatistics_overdue)
  have empty: "docs = [] \<longrightarrow> st_completionRate (Task_getStatistics now docs) = Some 0"
    by (simp add: Task_getStatistics_def)
  let ?q = "of_nat (length (filter k_completed docs)) / of_nat (length docs) :: rat"
  have "0 \<le> ?q" by simp
  from completionRate_error_le [OF this]
  have rate: "\<exists>r. st_completionRate (Task_getStatistics now docs) = Some r
      \<and> \<bar>r - ?q * 100\<bar> \<le> ?q * 100 / 2 ^ 51"
    by (simp only: Task_getStatistics_completionRate) blast
  from mem db rest rest_db overdue empty rate show ?thesis by (intro conjI)
qed

theorem statistics_fields_witness:
  "st_total (InMemoryTask_aggregate (initializeSampleData 1000 initial_store)) = 5
   \<and> st_active (InMemoryTask_aggregate (initializeSampleData 1000 initial_store)) = 5
   \<and> st_overdue (Task_getStatistics 2000
        [new_Task 1000 ''a1'' ((text_only ''one'')\<lparr> b_completed := Some True, b_dueDate := Some 500 \<rparr>),
         new_Task 1000 ''a2'' ((text_only ''two'')\<lparr> b_dueDate := Some 1500 \<rparr>),
         new_Task 1000 ''a3'' ((text_only ''three'')\<lparr> b_dueDate := Some 3000 \<rparr>)]) = Some 1
   \<and> (\<exists>r. st_completionRate (Task_getStatistics 2000
        [new_Task 1000 ''a1'' ((text_only ''one'')\<lparr> b_completed := Some True, b_dueDate := Some 500 \<rparr>),
         new_Task 1000 ''a2'' ((text_only ''two'')\<lparr> b_dueDate := Some 1500 \<rparr>),
         new_Task 1000 ''a3'' ((text_only ''three'')\<lparr> b_dueDate := Some 3000 \<rparr>)]) = Some r
        \<and> \<bar>r - 100 / 3\<bar> \<le> 100 / 3 / 2 ^ 51)
   \<and> st_completionRate (Task_getStatistics 2000 []) = Some 0"
proof -
  let ?S = "initializeSampleData 1000 initial_store"
  let ?D = "[new_Task 1000 ''a1'' ((text_only ''one'')\<lparr> b_completed := Some True, b_dueDate := Some 500 \<rparr>),
         new_Task 1000 ''a2'' ((text_only ''two'')\<lparr> b_dueDate := Some 1500 \<rparr>),
         new_Task 1000 ''a3'' ((text_only ''three'')\<lparr> b_dueDate := Some 3000 \<rparr>)]"
  have a: "length (tasks ?S) = 5" "length (filter t_completed (tasks ?S)) = 0"
    by (simp_all add: mem_eval)
  have b: "length (filter k_completed ?D) = 1" "length ?D = 3"
    by (simp_all add: new_Task_def text_only_def or_else_def)
  have h: "\<forall>d \<in> set ?D. k_completed d \<or> k_dueDate d \<noteq> None"
    by (simp add: new_Task_def text_only_def or_else_def)
  have n: "length (filter (isOverdue 2000) ?D) = 1"
    by (simp add: isOverdue_def new_Task_def text_only_def or_else_def)
  have c1: "st_total (InMemoryTask_aggregate ?S) = 5" "st_active (InMemoryTask_aggregate ?S) = 5"
    using a statistics_fields [of ?S 2000 ?D] by simp_all
  have c2: "st_overdue (Task_getStatistics 2000 ?D) = Some 1"
    using h n statistics_fields [of ?S 2000 ?D] by simp
  have "\<exists>r. st_completionRate (Task_getStatistics 2000 ?D) = Some r
      \<and> \<bar>r - of_nat (length (filter k_completed ?D)) / of_nat (length ?D) * 100\<bar>
          \<le> of_nat (length (filter k_completed ?D)) / of_nat (length ?D) * 100 / 2 ^ 51"
    using statistics_fields [of ?S 2000 ?D] by blast
  then have c3: "\<exists>r. st_completionRate (Task_getStatistics 2000 ?D) = Some r
      \<and> \<bar>r - 100 / 3\<bar> \<le> 100 / 3 / 2 ^ 51"
    by (simp only: b) simp
  have c4: "st_completionRate (Task_getStatistics 2000 []) = Some 0"
    using statistics_fields [of ?S 2000 "[]"] by simp
  from c1 c2 c3 c4 show ?thesis by (intro conjI)
qed

text \<open>
  The statistics object of the in-memory store, also as the simplified controller
  returns it, has neither \<open>overdue\<close> nor \<open>completionRate\<close>.  In \<open>Task.getStatistics\<close> a
  task without due date that is not completed is counted as overdue, although it is not
  overdue (\<open>isOverdue\<close>); and with one task of three completed, \<open>completionRate\<close> is the
  double \<open>33.33333333333333\<close>, which lies strictly between 33.33 and 33.34.
\<close>

theorem statistics_fields_counterexample:
  "st_overdue (InMemoryTask_aggregate (initializeSampleData 1000 initial_store)) = None
   \<and> st_completionRate (InMemoryTask_aggregate (initializeSampleData 1000 initial_store)) = None
   \<and> map_option st_overdue (r_data (getTaskStatistics_memory (initializeSampleData 1000 initial_store)))
       = Some None
   \<and> st_overdue (Task_getStatistics 2000 [new_Task 1000 ''a1'' (text_only ''one'')]) = Some 1
   \<and> filter (isOverdue 2000) [new_Task 1000 ''a1'' (text_only ''one'')] = []
   \<and> st_completionRate (Task_getStatistics 2000
        [new_Task 1000 ''a1'' ((text_only ''one'')\<lparr> b_completed := Some True \<rparr>),
         new_Task 1000 ''a2'' (text_only ''two''),
         new_Task 1000 ''a3'' (text_only ''three'')])
       = Some (2345624805922133 / 70368744177664)
   \<and> (3333 / 100 :: rat) < 2345624805922133 / 70368744177664
   \<and> (2345624805922133 / 70368744177664 :: rat) < 3334 / 100"
proof -
  let ?S = "initializeSampleData 1000 initial_store"
  have m: "st_overdue (InMemoryTask_aggregate ?S) = None"
    "st_completionRate (InMemoryTask_aggregate ?S) = None"
    "map_option st_overdue (r_data (getTaskStatistics_memory ?S)) = Some None"
    by (simp_all add: InMemoryTask_aggregate_def getTaskStatistics_memory_def success_def)
  have o: "st_overdue (Task_getStatistics 2000 [new_Task 1000 ''a1'' (text_only ''one'')]) = Some 1"
    "filter (isOverdue 2000) [new_Task 1000 ''a1'' (text_only ''one'')] = []"
    by (simp_all add: Task_getStatistics_def dollar_lt_def isOverdue_def new_Task_def
        text_only_def or_else_def)
  have r: "st_completionRate (Task_getStatistics 2000
        [new_Task 1000 ''a1'' ((text_only ''one'')\<lparr> b_completed := Some True \<rparr>),
         new_Task 1000 ''a2'' (text_only ''two''),
         new_Task 1000 ''a3'' (text_only ''three'')])
       = Some (2345624805922133 / 70368744177664)"
    by code_simp
  have v: "(3333 / 100 :: rat) < 2345624805922133 / 70368744177664"
    "(2345624805922133 / 70368744177664 :: rat) < 3334 / 100"
    by simp_all
  from m o r v show ?thesis by (intro conjI)
qed


section \<open>Deletion (claim C9)\<close>





section \<open>Identifiers in the in-memory store\<close>

text \<open>
  The identifiers stay unique as long as no update payload carries \<open>_id\<close> or \<open>id\<close>: the
  empty store has unique identifiers, \<open>create\<close>, \<open>findByIdAndDelete\<close> and such an update
  keep them so, and then at most one task matches an id, so that a deleted id is not
  found again.
\<close>

theorem unique_ids_kept:
  "unique_ids initial_store
   \<and> (unique_ids s \<longrightarrow>
        unique_ids (snd (InMemoryTask_create now d s))
        \<and> unique_ids (snd (InMemoryTask_findByIdAndDelete i s))
        \<and> (p_uid p = None \<and> p_id p = None \<longrightarrow>
             unique_ids (snd (InMemoryTask_findByIdAndUpdate now i p opts s)))
        \<and> length (filter (has_id i) (tasks s)) \<le> 1
        \<and> InMemoryTask_findById i (snd (InMemoryTask_findByIdAndDelete i s)) = None)"
proof -
  have "InMemoryTask_findById i (snd (InMemoryTask_findByIdAndDelete i s)) = None"
    if "unique_ids s"
    using find_after_splice1 [OF unique_ids_one_match [OF that, of i]]
    by (simp add: InMemoryTask_findById_def mem_delete_snd)
  with unique_ids_initial unique_ids_create unique_ids_delete unique_ids_update
    unique_ids_one_match
  show ?thesis by blast
qed

theorem unique_ids_kept_witness:
  "unique_ids (initializeSampleData 1000 initial_store)
   \<and> unique_ids (snd (InMemoryTask_findByIdAndDelete ''3'' (initializeSampleData 1000 initial_store)))
   \<and> InMemoryTask_findById ''3''
        (snd (InMemoryTask_findByIdAndDelete ''3'' (initializeSampleData 1000 initial_store))) = None"
proof -
  have s: "initializeSampleData 1000 initial_store
      = snd (InMemoryTask_create 1000 (sampleTasks ! 4)
          (snd (InMemoryTask_create 1000 (sampleTasks ! 3)
            (snd (InMemoryTask_create 1000 (sampleTasks ! 2)
              (snd (InMemoryTask_create 1000 (sampleTasks ! 1)
                (snd (InMemoryTask_create 1000 (sampleTasks ! 0) initial_store)))))))))"
    by (simp add: initializeSampleData_def initial_store_def sampleTasks_def)
  have "unique_ids (initializeSampleData 1000 initial_store)"
    unfolding s using unique_ids_kept by blast
  then show ?thesis
    using unique_ids_kept [of "initializeSampleData 1000 initial_store" _ _ "''3''"] by blast
qed


section \<open>Update of a missing id in the in-memory store (claim C10)\<close>

text \<open>
  Claim C10.  In the in-memory store, \<open>findByIdAndUpdate\<close> on an id that matches no
  stored task returns \<open>null\<close> when the options carry a truthy \<open>new\<close>, and throws
  \<open>Error('Task not found')\<close> when the options are absent or \<open>new\<close> is falsy; in both
  cases the store is left as it was.
\<close>

theorem findByIdAndUpdate_missing_id:
  assumes "\<forall>t \<in> set (tasks s). \<not> has_id i t"
  shows "InMemoryTask_findByIdAndUpdate now i updateData opts s =
           (if options_new opts then (Inr None, s) else (Inl (Error ''Task not found''), s))"
proof -
  from assms have "findIndex (has_id i) (tasks s) = None"
    by (simp add: findIndex_None)
  then show ?thesis
    by (simp add: InMemoryTask_findByIdAndUpdate_def)
qed

theorem findByIdAndUpdate_missing_id_witness:
  "\<not> (\<exists>t \<in> set (tasks (initializeSampleData 1000 initial_store)). has_id ''6'' t)
   \<and> InMemoryTask_findByIdAndUpdate 2000 ''6'' empty_patch (Some \<lparr> o_new = Some True \<rparr>)
         (initializeSampleData 1000 initial_store)
       = (Inr None, initializeSampleData 1000 initial_store)
   \<and> InMemoryTask_findByIdAndUpdate 2000 ''6'' empty_patch None
         (initializeSampleData 1000 initial_store)
       = (Inl (Error ''Task not found''), initializeSampleData 1000 initial_store)
   \<and> InMemoryTask_findByIdAndUpdate 2000 ''6'' empty_patch (Some \<lparr> o_new = Some False \<rparr>)
         (initializeSampleData 1000 initial_store)
       = (Inl (Error ''Task not found''), initializeSampleData 1000 initial_store)"
proof -
  let ?s = "initializeSampleData 1000 initial_store"
  have h: "\<forall>t \<in> set (tasks ?s). \<not> has_id ''6'' t"
    by (simp add: mem_eval)
  show ?thesis
    using h findByIdAndUpdate_missing_id [OF h, of 2000 empty_patch]
    by (simp add: options_new_def)
qed

end
